theory Spec2Isabelle
  imports Main "HOL-Library.Word" "HOL-Library.AList" "HOL-Library.Signed_Division"
begin

unbundle bit_operations_syntax

section \<open>Go values used by pubscan\<close>

text \<open>
  Both programs of the repository are modelled: \<^verbatim>\<open>cmd/main.go\<close> (the extended variant:
  three sections, branch resolution, \<^verbatim>\<open>--min\<close>) and the root \<^verbatim>\<open>main.go\<close> (the minimal
  variant: one flat counter, \<^verbatim>\<open>--limit\<close>, the go-github client).

  Go's \<^verbatim>\<open>int\<close> is taken at its 64-bit width: \<open>+\<close> wraps and \<^verbatim>\<open>>=\<close> compares the signed
  values. A Go \<^verbatim>\<open>map[string]T\<close> is an association list with pairwise different keys, in
  the order in which \<^verbatim>\<open>range\<close> happens to visit it; a \<^verbatim>\<open>nil\<close> map is \<open>None\<close>.
\<close>

type_synonym go_int = "64 word"

datatype yaml_value =
    YNull
  | YScalar string
  | YSeq "yaml_value list"
  | YMap "(string \<times> yaml_value) list"

type_synonym 'v go_map = "(string \<times> 'v) list"

text \<open>\<^verbatim>\<open>for k := range m\<close>: the keys visited; ranging over a nil map visits nothing.\<close>

fun range_keys :: "'v go_map option \<Rightarrow> string list" where
  "range_keys None = []"
| "range_keys (Some kvs) = map fst kvs"

text \<open>\<^verbatim>\<open>m[k]++\<close> on a \<^verbatim>\<open>map[string]int\<close>: a missing key reads as 0 and is created.\<close>

definition incr :: "go_int go_map \<Rightarrow> string \<Rightarrow> go_int go_map" where
  "incr m k = AList.map_default k 1 (\<lambda>c. c + 1) m"

text \<open>\<^verbatim>\<open>for _, k := range ks { m[k]++ }\<close>\<close>

fun incr_all :: "go_int go_map \<Rightarrow> string list \<Rightarrow> go_int go_map" where
  "incr_all m [] = m"
| "incr_all m (k # ks) = incr_all (incr m k) ks"

text \<open>Reading a counter the way Go does: \<^verbatim>\<open>m[k]\<close> is 0 for a key that was never written.\<close>

definition lookup0 :: "go_int go_map \<Rightarrow> string \<Rightarrow> go_int" where
  "lookup0 m k = (case map_of m k of None \<Rightarrow> 0 | Some c \<Rightarrow> c)"

section \<open>Repository strings\<close>

text \<open>\<^verbatim>\<open>strings.Split(s, sep)\<close> for a separator of one byte: one part more than separators.\<close>

fun strings_Split :: "string \<Rightarrow> char \<Rightarrow> string list" where
  "strings_Split [] sep = [[]]"
| "strings_Split (c # cs) sep =
     (if c = sep then [] # strings_Split cs sep
      else (case strings_Split cs sep of
              [] \<Rightarrow> [[c]]
            | p # ps \<Rightarrow> (c # p) # ps))"

text \<open>\<^verbatim>\<open>splitRepo\<close> of the minimal variant; the extended variant inlines the same test.\<close>

definition splitRepo :: "string \<Rightarrow> string \<times> string \<times> bool" where
  "splitRepo full =
     (let parts = strings_Split full (CHR ''/'') in
      if length parts \<noteq> 2 then ('''', '''', False)
      else (parts ! 0, parts ! 1, True))"

text \<open>
  The data model's wording of a repository line, for comparison with \<open>splitRepo\<close>: exactly
  two slash-separated parts, both non-empty.
\<close>

definition spec_valid_repo :: "string \<Rightarrow> bool" where
  "spec_valid_repo full =
     (case strings_Split full (CHR ''/'') of
        [owner, name] \<Rightarrow> owner \<noteq> [] \<and> name \<noteq> []
      | _ \<Rightarrow> False)"

section \<open>The report of the extended variant\<close>

record PackageEntry =
  count :: go_int
  url :: string

record counter =
  deps :: "go_int go_map"
  devDeps :: "go_int go_map"
  overrides :: "go_int go_map"

record Stats =
  dependencies :: "PackageEntry go_map"
  dev_dependencies :: "PackageEntry go_map"
  dependency_overrides :: "PackageEntry go_map"

definition pub_dev_url :: "string \<Rightarrow> string" where
  "pub_dev_url pkg = ''https://pub.dev/packages/'' @ pkg"

text \<open>
  One of the three filter loops of \<^verbatim>\<open>main\<close>:
  \<^verbatim>\<open>for pkg, count := range m { if count >= *minUsage { out[pkg] = {count, url} } }\<close>
\<close>

fun filter_min :: "go_int \<Rightarrow> go_int go_map \<Rightarrow> PackageEntry go_map \<Rightarrow> PackageEntry go_map" where
  "filter_min minUsage [] out = out"
| "filter_min minUsage ((pkg, c) # rest) out =
     filter_min minUsage rest
       (if sint minUsage \<le> sint c
        then AList.update pkg \<lparr>count = c, url = pub_dev_url pkg\<rparr> out
        else out)"

definition buildReport :: "counter \<Rightarrow> go_int \<Rightarrow> Stats" where
  "buildReport stats minUsage =
     \<lparr>dependencies = filter_min minUsage (deps stats) [],
      dev_dependencies = filter_min minUsage (devDeps stats) [],
      dependency_overrides = filter_min minUsage (overrides stats) []\<rparr>"

section \<open>\<^verbatim>\<open>sort.Slice\<close> of the Go standard library\<close>

text \<open>
  \<^verbatim>\<open>getLatestBranch\<close> picks its branch as element 0 after \<^verbatim>\<open>sort.Slice\<close>, which is not a
  stable sort, so which of several equally recent branches comes first is decided by the
  library's algorithm. This is the pattern-defeating quicksort of package \<^verbatim>\<open>sort\<close>
  (\<^verbatim>\<open>zsortfunc.go\<close>, Go 1.19 and later; the module asks for Go 1.24), function by function
  and under its names. \<open>lt\<close> is the caller's \<^verbatim>\<open>less\<close> on elements; \<open>Less\<close> and \<open>Swap\<close> are
  \<^verbatim>\<open>data.Less\<close> and \<^verbatim>\<open>data.Swap\<close> on indices. Indices are Go \<^verbatim>\<open>int\<close>s, here \<open>int\<close>: they stay
  within the slice bounds.
\<close>

definition Less :: "('a \<Rightarrow> 'a \<Rightarrow> bool) \<Rightarrow> 'a list \<Rightarrow> int \<Rightarrow> int \<Rightarrow> bool" where
  "Less lt xs i j = lt (xs ! nat i) (xs ! nat j)"

definition Swap :: "'a list \<Rightarrow> int \<Rightarrow> int \<Rightarrow> 'a list" where
  "Swap xs i j = xs[nat i := xs ! nat j, nat j := xs ! nat i]"

function insertionSort_inner :: "('a \<Rightarrow> 'a \<Rightarrow> bool) \<Rightarrow> 'a list \<Rightarrow> int \<Rightarrow> int \<Rightarrow> 'a list" where
  "insertionSort_inner lt xs a j =
     (if j > a \<and> Less lt xs j (j - 1)
      then insertionSort_inner lt (Swap xs j (j - 1)) a (j - 1)
      else xs)"
  by pat_completeness auto
termination
  by (relation "measure (\<lambda>(lt, xs, a, j). nat (j - a))") auto

function insertionSort_outer :: "('a \<Rightarrow> 'a \<Rightarrow> bool) \<Rightarrow> 'a list \<Rightarrow> int \<Rightarrow> int \<Rightarrow> int \<Rightarrow> 'a list" where
  "insertionSort_outer lt xs a b i =
     (if i < b
      then insertionSort_outer lt (insertionSort_inner lt xs a i) a b (i + 1)
      else xs)"
  by pat_completeness auto
termination
  by (relation "measure (\<lambda>(lt, xs, a, b, i). nat (b - i))") auto

definition insertionSort_func :: "('a \<Rightarrow> 'a \<Rightarrow> bool) \<Rightarrow> 'a list \<Rightarrow> int \<Rightarrow> int \<Rightarrow> 'a list" where
  "insertionSort_func lt xs a b = insertionSort_outer lt xs a b (a + 1)"

function siftDown_func :: "('a \<Rightarrow> 'a \<Rightarrow> bool) \<Rightarrow> 'a list \<Rightarrow> nat \<Rightarrow> int \<Rightarrow> int \<Rightarrow> 'a list" where
  "siftDown_func lt xs root hi first =
     (let child = 2 * int root + 1 in
      if child \<ge> hi then xs
      else
        let child = (if child + 1 < hi \<and> Less lt xs (first + child) (first + child + 1)
                     then child + 1 else child) in
        if \<not> Less lt xs (first + int root) (first + child) then xs
        else siftDown_func lt (Swap xs (first + int root) (first + child)) (nat child) hi first)"
  by pat_completeness auto
termination
  by (relation "measure (\<lambda>(lt, xs, root, hi, first). nat (hi - int root))") (auto simp: Let_def)

function heapSort_build :: "('a \<Rightarrow> 'a \<Rightarrow> bool) \<Rightarrow> 'a list \<Rightarrow> int \<Rightarrow> int \<Rightarrow> int \<Rightarrow> 'a list" where
  "heapSort_build lt xs i hi first =
     (if i \<ge> 0
      then heapSort_build lt (siftDown_func lt xs (nat i) hi first) (i - 1) hi first
      else xs)"
  by pat_completeness auto
termination
  by (relation "measure (\<lambda>(lt, xs, i, hi, first). nat (i + 1))") auto

function heapSort_pop :: "('a \<Rightarrow> 'a \<Rightarrow> bool) \<Rightarrow> 'a list \<Rightarrow> int \<Rightarrow> nat \<Rightarrow> int \<Rightarrow> 'a list" where
  "heapSort_pop lt xs i lo first =
     (if i \<ge> 0
      then heapSort_pop lt (siftDown_func lt (Swap xs first (first + i)) lo i first) (i - 1) lo first
      else xs)"
  by pat_completeness auto
termination
  by (relation "measure (\<lambda>(lt, xs, i, lo, first). nat (i + 1))") auto

definition heapSort_func :: "('a \<Rightarrow> 'a \<Rightarrow> bool) \<Rightarrow> 'a list \<Rightarrow> int \<Rightarrow> int \<Rightarrow> 'a list" where
  "heapSort_func lt xs a b =
     (let first = a; lo = 0; hi = b - a;
          xs = heapSort_build lt xs ((hi - 1) sdiv 2) hi first
      in heapSort_pop lt xs (hi - 1) lo first)"


fun bits_Len :: "nat \<Rightarrow> nat" where
  "bits_Len n = (if n = 0 then 0 else Suc (bits_Len (n div 2)))"

declare bits_Len.simps [simp del]

function partition_up :: "('a \<Rightarrow> 'a \<Rightarrow> bool) \<Rightarrow> 'a list \<Rightarrow> int \<Rightarrow> int \<Rightarrow> int \<Rightarrow> int" where
  "partition_up lt xs a i j =
     (if i \<le> j \<and> Less lt xs i a then partition_up lt xs a (i + 1) j else i)"
  by pat_completeness auto
termination
  by (relation "measure (\<lambda>(lt, xs, a, i, j). nat (j + 1 - i))") auto

function partition_down :: "('a \<Rightarrow> 'a \<Rightarrow> bool) \<Rightarrow> 'a list \<Rightarrow> int \<Rightarrow> int \<Rightarrow> int \<Rightarrow> int" where
  "partition_down lt xs a i j =
     (if i \<le> j \<and> \<not> Less lt xs j a then partition_down lt xs a i (j - 1) else j)"
  by pat_completeness auto
termination
  by (relation "measure (\<lambda>(lt, xs, a, i, j). nat (j + 1 - i))") auto

declare partition_up.simps [simp del] partition_down.simps [simp del]

lemma partition_up_ge: "i \<le> partition_up lt xs a i j"
proof (induction lt xs a i j rule: partition_up.induct)
  case (1 lt xs a i j)
  show ?case
  proof (cases "i \<le> j \<and> Less lt xs i a")
    case True
    with 1 have "i + 1 \<le> partition_up lt xs a (i + 1) j" by simp
    with True show ?thesis by (subst partition_up.simps) simp
  next
    case False
    then show ?thesis by (subst partition_up.simps) auto
  qed
qed

lemma partition_down_le: "partition_down lt xs a i j \<le> j"
proof (induction lt xs a i j rule: partition_down.induct)
  case (1 lt xs a i j)
  show ?case
  proof (cases "i \<le> j \<and> \<not> Less lt xs j a")
    case True
    with 1 have "partition_down lt xs a i (j - 1) \<le> j - 1" by simp
    with True show ?thesis by (subst partition_down.simps) simp
  next
    case False
    then show ?thesis by (subst partition_down.simps) auto
  qed
qed

function partition_loop :: "('a \<Rightarrow> 'a \<Rightarrow> bool) \<Rightarrow> 'a list \<Rightarrow> int \<Rightarrow> int \<Rightarrow> int \<Rightarrow> 'a list \<times> int" where
  "partition_loop lt xs a i j =
     (let i = partition_up lt xs a i j;
          j = partition_down lt xs a i j
      in if i > j then (xs, j)
         else partition_loop lt (Swap xs i j) a (i + 1) (j - 1))"
  by pat_completeness auto
termination
proof (relation "measure (\<lambda>(lt, xs, a, i, j). nat (j + 1 - i))", goal_cases)
  case 1
  show ?case by simp
next
  case (2 lt xs a i j i' j')
  have "i \<le> i'" using 2 by (simp add: partition_up_ge)
  moreover have "j' \<le> j" using 2 by (simp add: partition_down_le)
  ultimately show ?case using 2 by simp
qed

definition partition_func ::
  "('a \<Rightarrow> 'a \<Rightarrow> bool) \<Rightarrow> 'a list \<Rightarrow> int \<Rightarrow> int \<Rightarrow> int \<Rightarrow> 'a list \<times> int \<times> bool" where
  "partition_func lt xs a b pivot =
     (let xs = Swap xs a pivot;
          i = a + 1;
          j = b - 1;
          i = partition_up lt xs a i j;
          j = partition_down lt xs a i j
      in if i > j then (Swap xs j a, j, True)
         else
           let xs = Swap xs i j;
               (xs, j) = partition_loop lt xs a (i + 1) (j - 1)
           in (Swap xs j a, j, False))"

function partitionEqual_up :: "('a \<Rightarrow> 'a \<Rightarrow> bool) \<Rightarrow> 'a list \<Rightarrow> int \<Rightarrow> int \<Rightarrow> int \<Rightarrow> int" where
  "partitionEqual_up lt xs a i j =
     (if i \<le> j \<and> \<not> Less lt xs a i then partitionEqual_up lt xs a (i + 1) j else i)"
  by pat_completeness auto
termination
  by (relation "measure (\<lambda>(lt, xs, a, i, j). nat (j + 1 - i))") auto

function partitionEqual_down :: "('a \<Rightarrow> 'a \<Rightarrow> bool) \<Rightarrow> 'a list \<Rightarrow> int \<Rightarrow> int \<Rightarrow> int \<Rightarrow> int" where
  "partitionEqual_down lt xs a i j =
     (if i \<le> j \<and> Less lt xs a j then partitionEqual_down lt xs a i (j - 1) else j)"
  by pat_completeness auto
termination
  by (relation "measure (\<lambda>(lt, xs, a, i, j). nat (j + 1 - i))") auto

declare partitionEqual_up.simps [simp del] partitionEqual_down.simps [simp del]

lemma partitionEqual_up_ge: "i \<le> partitionEqual_up lt xs a i j"
proof (induction lt xs a i j rule: partitionEqual_up.induct)
  case (1 lt xs a i j)
  show ?case
  proof (cases "i \<le> j \<and> \<not> Less lt xs a i")
    case True
    with 1 have "i + 1 \<le> partitionEqual_up lt xs a (i + 1) j" by simp
    with True show ?thesis by (subst partitionEqual_up.simps) simp
  next
    case False
    then show ?thesis by (subst partitionEqual_up.simps) auto
  qed
qed

lemma partitionEqual_down_le: "partitionEqual_down lt xs a i j \<le> j"
proof (induction lt xs a i j rule: partitionEqual_down.induct)
  case (1 lt xs a i j)
  show ?case
  proof (cases "i \<le> j \<and> Less lt xs a j")
    case True
    with 1 have "partitionEqual_down lt xs a i (j - 1) \<le> j - 1" by simp
    with True show ?thesis by (subst partitionEqual_down.simps) simp
  next
    case False
    then show ?thesis by (subst partitionEqual_down.simps) auto
  qed
qed

function partitionEqual_loop :: "('a \<Rightarrow> 'a \<Rightarrow> bool) \<Rightarrow> 'a list \<Rightarrow> int \<Rightarrow> int \<Rightarrow> int \<Rightarrow> 'a list \<times> int" where
  "partitionEqual_loop lt xs a i j =
     (let i = partitionEqual_up lt xs a i j;
          j = partitionEqual_down lt xs a i j
      in if i > j then (xs, i)
         else partitionEqual_loop lt (Swap xs i j) a (i + 1) (j - 1))"
  by pat_completeness auto
termination
proof (relation "measure (\<lambda>(lt, xs, a, i, j). nat (j + 1 - i))", goal_cases)
  case 1
  show ?case by simp
next
  case (2 lt xs a i j i' j')
  have "i \<le> i'" using 2 by (simp add: partitionEqual_up_ge)
  moreover have "j' \<le> j" using 2 by (simp add: partitionEqual_down_le)
  ultimately show ?case using 2 by simp
qed

definition partitionEqual_func ::
  "('a \<Rightarrow> 'a \<Rightarrow> bool) \<Rightarrow> 'a list \<Rightarrow> int \<Rightarrow> int \<Rightarrow> int \<Rightarrow> 'a list \<times> int" where
  "partitionEqual_func lt xs a b pivot =
     partitionEqual_loop lt (Swap xs a pivot) a (a + 1) (b - 1)"


lemma partition_down_ge: "i - 1 \<le> j \<Longrightarrow> i - 1 \<le> partition_down lt xs a i j"
proof (induction lt xs a i j rule: partition_down.induct)
  case (1 lt xs a i j)
  show ?case
  proof (cases "i \<le> j \<and> \<not> Less lt xs j a")
    case True
    with 1 have "i - 1 \<le> partition_down lt xs a i (j - 1)" by simp
    with True show ?thesis by (subst partition_down.simps) simp
  next
    case False
    with 1 show ?thesis by (subst partition_down.simps) auto
  qed
qed

declare partition_loop.simps [simp del] partitionEqual_loop.simps [simp del]

lemma partition_loop_bounds:
  "snd (partition_loop lt xs a i j) \<le> j \<and> min j (i - 1) \<le> snd (partition_loop lt xs a i j)"
proof (induction lt xs a i j rule: partition_loop.induct)
  case (1 lt xs a i j)
  define i' where "i' = partition_up lt xs a i j"
  define j' where "j' = partition_down lt xs a i' j"
  have ii: "i \<le> i'" unfolding i'_def by (rule partition_up_ge)
  have jj: "j' \<le> j" unfolding j'_def by (rule partition_down_le)
  show ?case
  proof (cases "i' > j'")
    case True
    have low: "min j (i - 1) \<le> j'"
    proof (cases "i' - 1 \<le> j")
      case True
      then have "i' - 1 \<le> j'" unfolding j'_def by (rule partition_down_ge)
      with ii show ?thesis by simp
    next
      case False
      then have "j' = j" unfolding j'_def by (subst partition_down.simps) simp
      then show ?thesis by simp
    qed
    from True have "partition_loop lt xs a i j = (xs, j')"
      by (subst partition_loop.simps) (simp add: i'_def j'_def Let_def)
    with jj low show ?thesis by simp
  next
    case False
    then have eq: "partition_loop lt xs a i j = partition_loop lt (Swap xs i' j') a (i' + 1) (j' - 1)"
      by (subst partition_loop.simps) (simp add: i'_def j'_def Let_def)
    from False have "snd (partition_loop lt (Swap xs i' j') a (i' + 1) (j' - 1)) \<le> j' - 1
        \<and> min (j' - 1) (i' + 1 - 1) \<le> snd (partition_loop lt (Swap xs i' j') a (i' + 1) (j' - 1))"
      using "1.IH" [OF i'_def j'_def] by simp
    with eq False ii jj show ?thesis by (simp add: min_def split: if_splits)
  qed
qed

lemma partition_func_bounds:
  assumes "a < b" and "partition_func lt xs a b pivot = (ys, mid, ap)"
  shows "a \<le> mid \<and> mid < b"
proof -
  define zs where "zs = Swap xs a pivot"
  define i' where "i' = partition_up lt zs a (a + 1) (b - 1)"
  define j' where "j' = partition_down lt zs a i' (b - 1)"
  have ii: "a + 1 \<le> i'" unfolding i'_def by (rule partition_up_ge)
  have jj: "j' \<le> b - 1" unfolding j'_def by (rule partition_down_le)
  have low: "a \<le> j'"
  proof (cases "i' - 1 \<le> b - 1")
    case True
    then have "i' - 1 \<le> j'" unfolding j'_def by (rule partition_down_ge)
    with ii show ?thesis by simp
  next
    case False
    then have "j' = b - 1" unfolding j'_def by (subst partition_down.simps) simp
    with assms(1) show ?thesis by simp
  qed
  show ?thesis
  proof (cases "i' > j'")
    case True
    with assms(2) have "mid = j'"
      by (simp add: partition_func_def Let_def zs_def i'_def j'_def)
    with jj low show ?thesis by simp
  next
    case False
    with assms(2) have "mid = snd (partition_loop lt (Swap zs i' j') a (i' + 1) (j' - 1))"
      by (auto simp: partition_func_def Let_def zs_def i'_def j'_def split: prod.splits)
    with partition_loop_bounds [of lt "Swap zs i' j'" a "i' + 1" "j' - 1"] False ii jj
    show ?thesis by (simp add: min_def split: if_splits)
  qed
qed

lemma partitionEqual_loop_ge: "i \<le> snd (partitionEqual_loop lt xs a i j)"
proof (induction lt xs a i j rule: partitionEqual_loop.induct)
  case (1 lt xs a i j)
  define i' where "i' = partitionEqual_up lt xs a i j"
  define j' where "j' = partitionEqual_down lt xs a i' j"
  have ii: "i \<le> i'" unfolding i'_def by (rule partitionEqual_up_ge)
  show ?case
  proof (cases "i' > j'")
    case True
    then have "partitionEqual_loop lt xs a i j = (xs, i')"
      by (subst partitionEqual_loop.simps) (simp add: i'_def j'_def Let_def)
    with ii show ?thesis by simp
  next
    case False
    then have eq: "partitionEqual_loop lt xs a i j =
        partitionEqual_loop lt (Swap xs i' j') a (i' + 1) (j' - 1)"
      by (subst partitionEqual_loop.simps) (simp add: i'_def j'_def Let_def)
    from False have "i' + 1 \<le> snd (partitionEqual_loop lt (Swap xs i' j') a (i' + 1) (j' - 1))"
      using "1.IH" [OF i'_def j'_def] by simp
    with eq ii show ?thesis by simp
  qed
qed

lemma partitionEqual_func_gt:
  "partitionEqual_func lt xs a b pivot = (ys, mid) \<Longrightarrow> a < mid"
  using partitionEqual_loop_ge [of "a + 1" lt "Swap xs a pivot" a "b - 1"]
  by (simp add: partitionEqual_func_def)

function partialInsertionSort_skip :: "('a \<Rightarrow> 'a \<Rightarrow> bool) \<Rightarrow> 'a list \<Rightarrow> int \<Rightarrow> int \<Rightarrow> int" where
  "partialInsertionSort_skip lt xs b i =
     (if i < b \<and> \<not> Less lt xs i (i - 1) then partialInsertionSort_skip lt xs b (i + 1) else i)"
  by pat_completeness auto
termination
  by (relation "measure (\<lambda>(lt, xs, b, i). nat (b - i))") auto

function shift_left :: "('a \<Rightarrow> 'a \<Rightarrow> bool) \<Rightarrow> 'a list \<Rightarrow> int \<Rightarrow> 'a list" where
  "shift_left lt xs j =
     (if j \<ge> 1
      then (if \<not> Less lt xs j (j - 1) then xs else shift_left lt (Swap xs j (j - 1)) (j - 1))
      else xs)"
  by pat_completeness auto
termination
  by (relation "measure (\<lambda>(lt, xs, j). nat j)") auto

function shift_right :: "('a \<Rightarrow> 'a \<Rightarrow> bool) \<Rightarrow> 'a list \<Rightarrow> int \<Rightarrow> int \<Rightarrow> 'a list" where
  "shift_right lt xs b j =
     (if j < b
      then (if \<not> Less lt xs j (j - 1) then xs else shift_right lt (Swap xs j (j - 1)) b (j + 1))
      else xs)"
  by pat_completeness auto
termination
  by (relation "measure (\<lambda>(lt, xs, b, j). nat (b - j))") auto

function partialInsertionSort_loop ::
  "('a \<Rightarrow> 'a \<Rightarrow> bool) \<Rightarrow> 'a list \<Rightarrow> int \<Rightarrow> int \<Rightarrow> int \<Rightarrow> int \<Rightarrow> 'a list \<times> bool" where
  "partialInsertionSort_loop lt xs a b i j =
     (if j < 5 then
        (let i = partialInsertionSort_skip lt xs b i in
         if i = b then (xs, True)
         else if b - a < 50 then (xs, False)
         else
           let xs = Swap xs i (i - 1);
               xs = (if i - a \<ge> 2 then shift_left lt xs (i - 1) else xs);
               xs = (if b - i \<ge> 2 then shift_right lt xs b (i + 1) else xs)
           in partialInsertionSort_loop lt xs a b i (j + 1))
      else (xs, False))"
  by pat_completeness auto
termination
  by (relation "measure (\<lambda>(lt, xs, a, b, i, j). nat (5 - j))") auto

definition partialInsertionSort_func ::
  "('a \<Rightarrow> 'a \<Rightarrow> bool) \<Rightarrow> 'a list \<Rightarrow> int \<Rightarrow> int \<Rightarrow> 'a list \<times> bool" where
  "partialInsertionSort_func lt xs a b = partialInsertionSort_loop lt xs a b (a + 1) 0"

definition xorshift_Next :: "64 word \<Rightarrow> 64 word" where
  "xorshift_Next r =
     (let r = r XOR push_bit 13 r;
          r = r XOR drop_bit 7 r;
          r = r XOR push_bit 17 r
      in r)"

definition nextPowerOfTwo :: "int \<Rightarrow> 64 word" where
  "nextPowerOfTwo len = push_bit (bits_Len (nat len)) 1"

function breakPatterns_loop ::
  "'a list \<Rightarrow> int \<Rightarrow> int \<Rightarrow> int \<Rightarrow> 64 word \<Rightarrow> 64 word \<Rightarrow> int \<Rightarrow> 'a list" where
  "breakPatterns_loop xs a len idx modulus random i =
     (if i < 3 then
        (let random = xorshift_Next random;
             other = uint (random AND (modulus - 1));
             other = (if other \<ge> len then other - len else other)
         in breakPatterns_loop (Swap xs (idx - 1 + i) (a + other)) a len idx modulus random (i + 1))
      else xs)"
  by pat_completeness auto
termination
  by (relation "measure (\<lambda>(xs, a, len, idx, modulus, random, i). nat (3 - i))") auto

definition breakPatterns_func :: "'a list \<Rightarrow> int \<Rightarrow> int \<Rightarrow> 'a list" where
  "breakPatterns_func xs a b =
     (let len = b - a in
      if len \<ge> 8 then
        breakPatterns_loop xs a len (a + (len sdiv 4) * 2 - 1)
          (nextPowerOfTwo len) (word_of_int len) 0
      else xs)"

datatype sortedHint = unknownHint | increasingHint | decreasingHint

definition order2_func ::
  "('a \<Rightarrow> 'a \<Rightarrow> bool) \<Rightarrow> 'a list \<Rightarrow> int \<Rightarrow> int \<Rightarrow> nat \<Rightarrow> int \<times> int \<times> nat" where
  "order2_func lt xs a b swaps =
     (if Less lt xs b a then (b, a, swaps + 1) else (a, b, swaps))"

definition median_func ::
  "('a \<Rightarrow> 'a \<Rightarrow> bool) \<Rightarrow> 'a list \<Rightarrow> int \<Rightarrow> int \<Rightarrow> int \<Rightarrow> nat \<Rightarrow> int \<times> nat" where
  "median_func lt xs a b c swaps =
     (let (a, b, swaps) = order2_func lt xs a b swaps;
          (b, c, swaps) = order2_func lt xs b c swaps;
          (a, b, swaps) = order2_func lt xs a b swaps
      in (b, swaps))"

definition medianAdjacent_func ::
  "('a \<Rightarrow> 'a \<Rightarrow> bool) \<Rightarrow> 'a list \<Rightarrow> int \<Rightarrow> nat \<Rightarrow> int \<times> nat" where
  "medianAdjacent_func lt xs a swaps = median_func lt xs (a - 1) a (a + 1) swaps"

definition choosePivot_func ::
  "('a \<Rightarrow> 'a \<Rightarrow> bool) \<Rightarrow> 'a list \<Rightarrow> int \<Rightarrow> int \<Rightarrow> int \<times> sortedHint" where
  "choosePivot_func lt xs a b =
     (let l = b - a;
          swaps = 0;
          i = a + l sdiv 4 * 1;
          j = a + l sdiv 4 * 2;
          k = a + l sdiv 4 * 3;
          (j, swaps) =
            (if l \<ge> 8 then
               (let (i, j, k, swaps) =
                      (if l \<ge> 50 then
                         (let (i, swaps) = medianAdjacent_func lt xs i swaps;
                              (j, swaps) = medianAdjacent_func lt xs j swaps;
                              (k, swaps) = medianAdjacent_func lt xs k swaps
                          in (i, j, k, swaps))
                       else (i, j, k, swaps))
                in median_func lt xs i j k swaps)
             else (j, swaps))
      in if swaps = 0 then (j, increasingHint)
         else if swaps = 4 * 3 then (j, decreasingHint)
         else (j, unknownHint))"

function reverseRange_loop :: "'a list \<Rightarrow> int \<Rightarrow> int \<Rightarrow> 'a list" where
  "reverseRange_loop xs i j =
     (if i < j then reverseRange_loop (Swap xs i j) (i + 1) (j - 1) else xs)"
  by pat_completeness auto
termination
  by (relation "measure (\<lambda>(xs, i, j). nat (j - i))") auto

definition reverseRange_func :: "'a list \<Rightarrow> int \<Rightarrow> int \<Rightarrow> 'a list" where
  "reverseRange_func xs a b = reverseRange_loop xs a (b - 1)"

text \<open>The body of the loop of pdqsort before the partitioning step.\<close>

definition pdqsort_prepare ::
  "('a \<Rightarrow> 'a \<Rightarrow> bool) \<Rightarrow> 'a list \<Rightarrow> int \<Rightarrow> int \<Rightarrow> nat \<Rightarrow> bool \<Rightarrow> bool
     \<Rightarrow> 'a list \<times> nat \<times> int \<times> bool" where
  "pdqsort_prepare lt xs a b limit wasBalanced wasPartitioned =
     (let (xs, limit) =
            (if \<not> wasBalanced then (breakPatterns_func xs a b, limit - 1) else (xs, limit));
          (pivot, hint) = choosePivot_func lt xs a b;
          (xs, pivot, hint) =
            (if hint = decreasingHint
             then (reverseRange_func xs a b, (b - 1) - (pivot - a), increasingHint)
             else (xs, pivot, hint));
          (xs, isSorted) =
            (if wasBalanced \<and> wasPartitioned \<and> hint = increasingHint
             then partialInsertionSort_func lt xs a b
             else (xs, False))
      in (xs, limit, pivot, isSorted))"

function pdqsort_func ::
  "('a \<Rightarrow> 'a \<Rightarrow> bool) \<Rightarrow> 'a list \<Rightarrow> int \<Rightarrow> int \<Rightarrow> nat \<Rightarrow> bool \<Rightarrow> bool \<Rightarrow> 'a list" where
  "pdqsort_func lt xs a b limit wasBalanced wasPartitioned =
     (if b - a \<le> 12 then insertionSort_func lt xs a b
      else if limit = 0 then heapSort_func lt xs a b
      else
        (case pdqsort_prepare lt xs a b limit wasBalanced wasPartitioned of
           (xs1, limit1, pivot, isSorted) \<Rightarrow>
             if isSorted then xs1
             else if a > 0 \<and> \<not> Less lt xs1 (a - 1) pivot then
               (case partitionEqual_func lt xs1 a b pivot of
                  (xs2, mid) \<Rightarrow> pdqsort_func lt xs2 mid b limit1 wasBalanced wasPartitioned)
             else
               (case partition_func lt xs1 a b pivot of
                  (xs2, mid, alreadyPartitioned) \<Rightarrow>
                    if mid - a < b - mid
                    then pdqsort_func lt (pdqsort_func lt xs2 a mid limit1 True True)
                           (mid + 1) b limit1 (mid - a \<ge> (b - a) sdiv 8) alreadyPartitioned
                    else pdqsort_func lt (pdqsort_func lt xs2 (mid + 1) b limit1 True True)
                           a mid limit1 (b - mid \<ge> (b - a) sdiv 8) alreadyPartitioned)))"
  by pat_completeness auto
termination
proof (relation "measure (\<lambda>(lt, xs, a, b, limit, wb, wp). nat (b - a))", goal_cases)
  case 1
  show ?case by simp
next
  case (2 lt xs a b limit wb wp x y xa ya xb yb xc yc)
  from 2(8) have "a < yc" by (intro partitionEqual_func_gt [OF sym])
  with 2(1) show ?case by simp
next
  case (3 lt xs a b limit wb wp x y xa ya xb yb xc yc xd yd)
  from 3(1) have "a < b" by simp
  moreover from 3(8,9) have "partition_func lt x a b xb = (xc, xd, yd)" by simp
  ultimately have "a \<le> xd \<and> xd < b" by (rule partition_func_bounds)
  with 3(1) show ?case by simp
next
  case (4 lt xs a b limit wb wp x y xa ya xb yb xc yc xd yd)
  from 4(1) have "a < b" by simp
  moreover from 4(8,9) have "partition_func lt x a b xb = (xc, xd, yd)" by simp
  ultimately have "a \<le> xd \<and> xd < b" by (rule partition_func_bounds)
  with 4(1) show ?case by simp
next
  case (5 lt xs a b limit wb wp x y xa ya xb yb xc yc xd yd)
  from 5(1) have "a < b" by simp
  moreover from 5(8,9) have "partition_func lt x a b xb = (xc, xd, yd)" by simp
  ultimately have "a \<le> xd \<and> xd < b" by (rule partition_func_bounds)
  with 5(1) show ?case by simp
next
  case (6 lt xs a b limit wb wp x y xa ya xb yb xc yc xd yd)
  from 6(1) have "a < b" by simp
  moreover from 6(8,9) have "partition_func lt x a b xb = (xc, xd, yd)" by simp
  ultimately have "a \<le> xd \<and> xd < b" by (rule partition_func_bounds)
  with 6(1) show ?case by simp
qed


declare insertionSort_inner.simps [simp del] insertionSort_outer.simps [simp del]
  siftDown_func.simps [simp del] heapSort_build.simps [simp del] heapSort_pop.simps [simp del]
  partialInsertionSort_skip.simps [simp del] shift_left.simps [simp del]
  shift_right.simps [simp del] partialInsertionSort_loop.simps [simp del]
  breakPatterns_loop.simps [simp del] reverseRange_loop.simps [simp del]
  pdqsort_func.simps [simp del]

text \<open>\<^verbatim>\<open>sort.Slice(x, less)\<close>\<close>

definition sort_Slice :: "('a \<Rightarrow> 'a \<Rightarrow> bool) \<Rightarrow> 'a list \<Rightarrow> 'a list" where
  "sort_Slice lt xs = pdqsort_func lt xs 0 (int (length xs)) (bits_Len (length xs)) True True"

section \<open>White space of package \<^verbatim>\<open>strings\<close>\<close>

text \<open>
  \<^verbatim>\<open>strings.TrimSpace\<close> and \<^verbatim>\<open>strings.Fields\<close> cut at the runes of \<^verbatim>\<open>unicode.IsSpace\<close>. A Go
  string is a list of bytes; \<open>white_space\<close> lists the UTF-8 encodings of those runes.
  \<open>space_width\<close> is the width in bytes of the white space rune a string starts with,
  \<open>space_width_end\<close> of the one it ends with, 0 if there is none.
\<close>

definition white_space :: "string list" where
  "white_space =
     [[CHR 0x09], [CHR 0x0A], [CHR 0x0B], [CHR 0x0C], [CHR 0x0D], [CHR 0x20],
      [CHR 0xC2, CHR 0x85], [CHR 0xC2, CHR 0xA0], [CHR 0xE1, CHR 0x9A, CHR 0x80],
      [CHR 0xE2, CHR 0x80, CHR 0x80], [CHR 0xE2, CHR 0x80, CHR 0x81],
      [CHR 0xE2, CHR 0x80, CHR 0x82], [CHR 0xE2, CHR 0x80, CHR 0x83],
      [CHR 0xE2, CHR 0x80, CHR 0x84], [CHR 0xE2, CHR 0x80, CHR 0x85],
      [CHR 0xE2, CHR 0x80, CHR 0x86], [CHR 0xE2, CHR 0x80, CHR 0x87],
      [CHR 0xE2, CHR 0x80, CHR 0x88], [CHR 0xE2, CHR 0x80, CHR 0x89],
      [CHR 0xE2, CHR 0x80, CHR 0x8A], [CHR 0xE2, CHR 0x80, CHR 0xA8],
      [CHR 0xE2, CHR 0x80, CHR 0xA9], [CHR 0xE2, CHR 0x80, CHR 0xAF],
      [CHR 0xE2, CHR 0x81, CHR 0x9F], [CHR 0xE3, CHR 0x80, CHR 0x80]]"

definition space_width :: "string \<Rightarrow> nat" where
  "space_width s =
     (case List.find (\<lambda>p. p \<noteq> [] \<and> take (length p) s = p) white_space of
        None \<Rightarrow> 0
      | Some p \<Rightarrow> length p)"

definition space_width_end :: "string \<Rightarrow> nat" where
  "space_width_end s =
     (case List.find (\<lambda>p. p \<noteq> [] \<and> length p \<le> length s \<and> drop (length s - length p) s = p) white_space of
        None \<Rightarrow> 0
      | Some p \<Rightarrow> length p)"

lemma space_width_le: "space_width s \<le> length s"
proof (cases "List.find (\<lambda>p. p \<noteq> [] \<and> take (length p) s = p) white_space")
  case None
  then show ?thesis by (simp add: space_width_def)
next
  case (Some p)
  then have "take (length p) s = p" by (auto simp: find_Some_iff)
  then have "length (take (length p) s) = length p" by simp
  then have "length p \<le> length s" by simp
  with Some show ?thesis by (simp add: space_width_def)
qed

lemma space_width_end_le: "space_width_end s \<le> length s"
  by (auto simp: space_width_end_def find_Some_iff split: option.splits)

function trim_left :: "string \<Rightarrow> string" where
  "trim_left s = (if space_width s = 0 then s else trim_left (drop (space_width s) s))"
  by pat_completeness auto
termination
proof (relation "measure length", goal_cases)
  case 1
  show ?case by simp
next
  case (2 s)
  with space_width_le [of s] show ?case by (cases s) auto
qed

function trim_right :: "string \<Rightarrow> string" where
  "trim_right s =
     (if space_width_end s = 0 then s else trim_right (take (length s - space_width_end s) s))"
  by pat_completeness auto
termination
proof (relation "measure length", goal_cases)
  case 1
  show ?case by simp
next
  case (2 s)
  with space_width_end_le [of s] show ?case by (cases s) auto
qed

definition strings_TrimSpace :: "string \<Rightarrow> string" where
  "strings_TrimSpace s = trim_right (trim_left s)"

fun take_field :: "string \<Rightarrow> string \<times> string" where
  "take_field [] = ([], [])"
| "take_field (c # cs) =
     (if space_width (c # cs) > 0 then ([], c # cs)
      else (case take_field cs of (w, r) \<Rightarrow> (c # w, r)))"

lemma take_field_le: "length (snd (take_field s)) \<le> length s"
  by (induction s) (auto split: prod.splits)

function strings_Fields :: "string \<Rightarrow> string list" where
  "strings_Fields s =
     (if s = [] then []
      else if space_width s > 0 then strings_Fields (drop (space_width s) s)
      else (case take_field s of (w, r) \<Rightarrow> w # strings_Fields r))"
  by pat_completeness auto
termination
proof (relation "measure length", goal_cases)
  case 1
  show ?case by simp
next
  case (2 s)
  then show ?case by (cases s) auto
next
  case (3 s w r)
  then obtain c cs where s: "s = c # cs" by (cases s) auto
  with 3 have "r = snd (take_field cs)" by (auto split: prod.splits)
  with take_field_le [of cs] s show ?case by simp
qed

declare trim_left.simps [simp del] trim_right.simps [simp del] strings_Fields.simps [simp del]

definition strings_HasPrefix :: "string \<Rightarrow> string \<Rightarrow> bool" where
  "strings_HasPrefix s p = (take (length p) s = p)"

definition strings_TrimPrefix :: "string \<Rightarrow> string \<Rightarrow> string" where
  "strings_TrimPrefix s p = (if strings_HasPrefix s p then drop (length p) s else s)"

section \<open>The manifest and its decoder\<close>

text \<open>
  \<^verbatim>\<open>yaml.Unmarshal\<close> (gopkg.in/yaml.v3) is outside the repository. What it does with a
  manifest depends on the text only through what the text holds under the struct's three
  keys, so a manifest text is seen as a \<open>yaml_doc\<close>: not parseable as YAML; parseable but
  with a scalar or a sequence at top level; or a top-level mapping (an empty or null
  document counts as the mapping without keys), given by the \<open>yaml_section\<close> under each key.
  The decoder's contract, from its documentation: a text that does not parse returns an
  error and leaves the destination untouched; a value that does not fit its field is
  skipped, decoding goes on, and an error is returned at the end; an absent key leaves
  the field as it is and a null sets it to nil; a mapping that repeats a key is refused.
\<close>

datatype yaml_section = Absent | Null | Entries "yaml_value go_map" | NotAMapping

datatype yaml_doc = Unparseable | NonMapping | TopLevel "string \<Rightarrow> yaml_section"

text \<open>A field \<^verbatim>\<open>map[string]interface{}\<close>: its value after decoding, and whether that failed.\<close>

fun decode_map :: "yaml_section \<Rightarrow> yaml_value go_map option \<times> bool" where
  "decode_map Absent = (None, False)"
| "decode_map Null = (None, False)"
| "decode_map (Entries kvs) =
     (if distinct (map fst kvs) then (Some kvs, False) else (None, True))"
| "decode_map NotAMapping = (None, True)"

text \<open>\<^verbatim>\<open>type Pubspec struct\<close> of cmd/main.go, and the one of the root main.go.\<close>

record Pubspec =
  Dependencies :: "yaml_value go_map option"
  DevDependencies :: "yaml_value go_map option"
  DependencyOverrides :: "yaml_value go_map option"

record Pubspec_min =
  min_Dependencies :: "yaml_value go_map option"
  min_DevDependencies :: "yaml_value go_map option"

text \<open>
  \<^verbatim>\<open>var ps Pubspec; err := yaml.Unmarshal(data, &ps)\<close>: the struct after the call and
  whether \<^verbatim>\<open>err\<close> is non-nil.
\<close>

definition yaml_Unmarshal :: "yaml_doc \<Rightarrow> Pubspec \<times> bool" where
  "yaml_Unmarshal doc =
     (case doc of
        Unparseable \<Rightarrow>
          (\<lparr>Dependencies = None, DevDependencies = None, DependencyOverrides = None\<rparr>, True)
      | NonMapping \<Rightarrow>
          (\<lparr>Dependencies = None, DevDependencies = None, DependencyOverrides = None\<rparr>, True)
      | TopLevel sec \<Rightarrow>
          (\<lparr>Dependencies = fst (decode_map (sec ''dependencies'')),
            DevDependencies = fst (decode_map (sec ''dev_dependencies'')),
            DependencyOverrides = fst (decode_map (sec ''dependency_overrides''))\<rparr>,
           snd (decode_map (sec ''dependencies''))
             \<or> snd (decode_map (sec ''dev_dependencies''))
             \<or> snd (decode_map (sec ''dependency_overrides''))))"

definition yaml_Unmarshal_min :: "yaml_doc \<Rightarrow> Pubspec_min \<times> bool" where
  "yaml_Unmarshal_min doc =
     (case doc of
        Unparseable \<Rightarrow> (\<lparr>min_Dependencies = None, min_DevDependencies = None\<rparr>, True)
      | NonMapping \<Rightarrow> (\<lparr>min_Dependencies = None, min_DevDependencies = None\<rparr>, True)
      | TopLevel sec \<Rightarrow>
          (\<lparr>min_Dependencies = fst (decode_map (sec ''dependencies'')),
            min_DevDependencies = fst (decode_map (sec ''dev_dependencies''))\<rparr>,
           snd (decode_map (sec ''dependencies''))
             \<or> snd (decode_map (sec ''dev_dependencies''))))"

section \<open>The hosting API and the libraries in front of it\<close>

text \<open>
  Everything the programs ask of the outside is a field of \<open>world\<close>:
  \<^item> \<open>NewRequest_ok url\<close>: \<^verbatim>\<open>http.NewRequestWithContext\<close> accepts the URL (it refuses what
    \<^verbatim>\<open>net/url\<close> cannot parse, a control character or a malformed percent escape, by
    returning a nil request and an error);
  \<^item> \<open>client_Do url\<close>: the answer to a GET of the URL, a transport error or a status and body;
  \<^item> \<open>json_Branches\<close>, \<open>json_FileContent\<close>: \<^verbatim>\<open>json.NewDecoder(body).Decode\<close> into the two
    structs, \<open>None\<close> for its error;
  \<^item> \<open>base64_DecodeString\<close>: \<^verbatim>\<open>base64.StdEncoding.DecodeString\<close>;
  \<^item> \<open>yaml_parse\<close>: the manifest text as the YAML decoder sees it;
  \<^item> \<open>GetContents owner repo\<close>: go-github's \<^verbatim>\<open>Repositories.GetContents\<close> for
    \<^verbatim>\<open>pubspec.yaml\<close>: an error, or no error and a nil file (the path is a directory), or
    a file together with what its \<^verbatim>\<open>GetContent()\<close> returns.
\<close>

record Branch =
  Name :: string
  Date :: int

record FileContent =
  Content :: string

datatype http_result = DoError | Response nat string

datatype gh_contents = GhError | GhNil | GhFile "string option"

record world =
  NewRequest_ok :: "string \<Rightarrow> bool"
  client_Do :: "string \<Rightarrow> http_result"
  json_Branches :: "string \<Rightarrow> Branch list option"
  json_FileContent :: "string \<Rightarrow> FileContent option"
  base64_DecodeString :: "string \<Rightarrow> string option"
  yaml_parse :: "string \<Rightarrow> yaml_doc"
  GetContents :: "string \<Rightarrow> string \<Rightarrow> gh_contents"

datatype error =
    TransportError
  | StatusError nat
  | JsonError
  | NoBranchesFound
  | Base64Error
  | YamlError
  | ApiError
  | ContentError
  | OpenError
  | ScanError

text \<open>
  What a call does: it panics (a nil pointer is dereferenced, an index is out of range),
  returns an error, or returns a value. The functions that talk to the API also return
  the requests they sent.
\<close>

datatype 'a result = Panic | Err error | Ok 'a

section \<open>The extended variant: cmd/main.go\<close>

text \<open>The \<^verbatim>\<open>less\<close> closure of \<^verbatim>\<open>getLatestBranch\<close>: \<^verbatim>\<open>branches[i]...Date.After(branches[j]...Date)\<close>.\<close>

definition after :: "Branch \<Rightarrow> Branch \<Rightarrow> bool" where
  "after x y = (Date y < Date x)"

definition branches_url :: "string \<Rightarrow> string \<Rightarrow> string" where
  "branches_url owner repo =
     ''https://api.github.com/repos/'' @ owner @ ''/'' @ repo @ ''/branches''"

definition pubspec_url :: "string \<Rightarrow> string \<Rightarrow> string \<Rightarrow> string" where
  "pubspec_url owner repo branch =
     ''https://api.github.com/repos/'' @ owner @ ''/'' @ repo
       @ ''/contents/pubspec.yaml?ref='' @ branch"

text \<open>
  The error of \<^verbatim>\<open>http.NewRequestWithContext\<close> is discarded (\<^verbatim>\<open>req, _ :=\<close>) and the request
  is used at once (\<^verbatim>\<open>req.Header.Set\<close>): a refused URL is a nil pointer dereference.
\<close>

definition getLatestBranch :: "world \<Rightarrow> string \<Rightarrow> string \<Rightarrow> string list \<times> string result" where
  "getLatestBranch w owner repo =
     (let url = branches_url owner repo in
      if \<not> NewRequest_ok w url then ([], Panic)
      else
        ([url],
         (case client_Do w url of
            DoError \<Rightarrow> Err TransportError
          | Response status body \<Rightarrow>
              if status \<noteq> 200 then Err (StatusError status)
              else
                (case json_Branches w body of
                   None \<Rightarrow> Err JsonError
                 | Some branches \<Rightarrow>
                     if length branches = 0 then Err NoBranchesFound
                     else
                       (case sort_Slice after branches of
                          [] \<Rightarrow> Panic
                        | b # _ \<Rightarrow> Ok (Name b))))))"

definition getPubspec ::
  "world \<Rightarrow> string \<Rightarrow> string \<Rightarrow> string \<Rightarrow> string list \<times> string result" where
  "getPubspec w owner repo branch =
     (let url = pubspec_url owner repo branch in
      if \<not> NewRequest_ok w url then ([], Panic)
      else
        ([url],
         (case client_Do w url of
            DoError \<Rightarrow> Err TransportError
          | Response status body \<Rightarrow>
              if status \<noteq> 200 then Err (StatusError status)
              else
                (case json_FileContent w body of
                   None \<Rightarrow> Err JsonError
                 | Some file \<Rightarrow>
                     (case base64_DecodeString w (Content file) of
                        None \<Rightarrow> Err Base64Error
                      | Some data \<Rightarrow> Ok data)))))"

text \<open>\<^verbatim>\<open>parsePubspec\<close> drops the decoder's error: \<^verbatim>\<open>_ = yaml.Unmarshal([]byte(content), &ps)\<close>.\<close>

definition parsePubspec :: "world \<Rightarrow> string \<Rightarrow> Pubspec" where
  "parsePubspec w content = fst (yaml_Unmarshal (yaml_parse w content))"

text \<open>
  One task (the goroutine's body up to \<^verbatim>\<open>mu.Lock()\<close>): it panics, or prints why it skips
  the repository and returns, or reaches the merge with a manifest.
\<close>

datatype skipped =
    InvalidRepoFormat
  | BranchError error
  | FetchError error
  | ReadError error
  | ParseError error

datatype 'a task = Crashed | Skipped skipped | Parsed 'a

definition process_repo :: "world \<Rightarrow> string \<Rightarrow> string list \<times> Pubspec task" where
  "process_repo w full =
     (let parts = strings_Split full (CHR ''/'') in
      if length parts \<noteq> 2 then ([], Skipped InvalidRepoFormat)
      else
        let owner = parts ! 0; repo = parts ! 1 in
        (case getLatestBranch w owner repo of
           (reqs, Panic) \<Rightarrow> (reqs, Crashed)
         | (reqs, Err e) \<Rightarrow> (reqs, Skipped (BranchError e))
         | (reqs, Ok branch) \<Rightarrow>
             (case getPubspec w owner repo branch of
                (reqs', Panic) \<Rightarrow> (reqs @ reqs', Crashed)
              | (reqs', Err e) \<Rightarrow> (reqs @ reqs', Skipped (FetchError e))
              | (reqs', Ok content) \<Rightarrow> (reqs @ reqs', Parsed (parsePubspec w content)))))"

text \<open>The section under the lock: three \<^verbatim>\<open>range\<close> loops.\<close>

definition merge_Pubspec :: "counter \<Rightarrow> Pubspec \<Rightarrow> counter" where
  "merge_Pubspec stats ps =
     \<lparr>deps = incr_all (deps stats) (range_keys (Dependencies ps)),
      devDeps = incr_all (devDeps stats) (range_keys (DevDependencies ps)),
      overrides = incr_all (overrides stats) (range_keys (DependencyOverrides ps))\<rparr>"

text \<open>
  The fan-out and \<^verbatim>\<open>wg.Wait()\<close>. The tasks share nothing but the counters, which they
  touch under the mutex only, so a run is a sequence of whole merges; they are taken in
  the order of the list. A panic in any goroutine ends the process: \<open>None\<close>.
\<close>

fun run_tasks :: "world \<Rightarrow> string list \<Rightarrow> counter \<Rightarrow> string list \<times> counter option" where
  "run_tasks w [] stats = ([], Some stats)"
| "run_tasks w (full # rest) stats =
     (case process_repo w full of
        (reqs, Crashed) \<Rightarrow> (reqs, None)
      | (reqs, Skipped why) \<Rightarrow>
          (case run_tasks w rest stats of (reqs', r) \<Rightarrow> (reqs @ reqs', r))
      | (reqs, Parsed ps) \<Rightarrow>
          (case run_tasks w rest (merge_Pubspec stats ps) of (reqs', r) \<Rightarrow> (reqs @ reqs', r)))"

text \<open>
  The process environment: \<open>environ_token\<close> is \<^verbatim>\<open>GITHUB_TOKEN\<close> as the process inherits it;
  \<open>dotenv_token path\<close> is the value the file at \<open>path\<close> gives it, \<open>None\<close> when
  \<^verbatim>\<open>godotenv.Load\<close> fails or the file has no such key (godotenv does not override a
  variable that is already set); \<open>os_ReadFile\<close> and \<open>os_WriteFile_ok\<close> are the file
  system; \<open>scanner_lines path\<close> is \<^verbatim>\<open>os.Open\<close> with a \<^verbatim>\<open>bufio.Scanner\<close> on the file: the
  lines it yields and whether its \<^verbatim>\<open>Err()\<close> is non-nil, \<open>None\<close> when the file cannot be
  opened.
\<close>

record os_env =
  environ_token :: "string option"
  dotenv_token :: "string \<Rightarrow> string option"
  os_ReadFile :: "string \<Rightarrow> string option"
  os_WriteFile_ok :: "string \<Rightarrow> bool"
  scanner_lines :: "string \<Rightarrow> (string list \<times> bool) option"

record flags =
  envPath :: string
  reposPath :: string
  outPath :: string
  minUsage :: go_int
  helpFlag :: bool

text \<open>The defaults of the \<^verbatim>\<open>flag\<close> declarations.\<close>

definition default_flags :: flags where
  "default_flags =
     \<lparr>envPath = [], reposPath = [], outPath = [], minUsage = 1, helpFlag = False\<rparr>"

datatype message =
    Usage
  | MissingArguments
  | TokenNotFound
  | ReadTokenFailed
  | ReadReposFailed
  | NoRepositories
  | WriteFailed
  | Success
  | Aborted

text \<open>
  What a run of the process comes to: its exit status, the last thing it printed, the
  requests it sent, and the report it wrote. A Go program that returns from \<^verbatim>\<open>main\<close>
  exits with status 0; \<^verbatim>\<open>os.Exit(1)\<close> and \<^verbatim>\<open>log.Fatal\<close> exit with 1; a panic or a deadlock
  ends it with status 2.
\<close>

record 'r outcome =
  exit_status :: nat
  printed :: message
  requests :: "string list"
  written :: "'r option"

definition main_extended :: "flags \<Rightarrow> os_env \<Rightarrow> world \<Rightarrow> Stats outcome" where
  "main_extended fl os w =
     (if helpFlag fl then
        \<lparr>exit_status = 0, printed = Usage, requests = [], written = None\<rparr>
      else if envPath fl = [] \<or> reposPath fl = [] \<or> outPath fl = [] then
        \<lparr>exit_status = 0, printed = MissingArguments, requests = [], written = None\<rparr>
      else
        let token =
              (case environ_token os of
                 Some t \<Rightarrow> t
               | None \<Rightarrow> (case dotenv_token os (envPath fl) of Some t \<Rightarrow> t | None \<Rightarrow> []))
        in
        if token = [] then
          \<lparr>exit_status = 0, printed = TokenNotFound, requests = [], written = None\<rparr>
        else
          (case os_ReadFile os (reposPath fl) of
             None \<Rightarrow>
               \<lparr>exit_status = 0, printed = ReadReposFailed, requests = [], written = None\<rparr>
           | Some file \<Rightarrow>
               let repos = strings_Fields (strings_TrimSpace file) in
               if length repos = 0 then
                 \<lparr>exit_status = 0, printed = NoRepositories, requests = [], written = None\<rparr>
               else
                 (case run_tasks w repos \<lparr>deps = [], devDeps = [], overrides = []\<rparr> of
                    (reqs, None) \<Rightarrow>
                      \<lparr>exit_status = 2, printed = Aborted, requests = reqs, written = None\<rparr>
                  | (reqs, Some stats) \<Rightarrow>
                      let finalStats = buildReport stats (minUsage fl) in
                      if \<not> os_WriteFile_ok os (outPath fl) then
                        \<lparr>exit_status = 0, printed = WriteFailed, requests = reqs,
                          written = None\<rparr>
                      else
                        \<lparr>exit_status = 0, printed = Success, requests = reqs,
                          written = Some finalStats\<rparr>)))"

section \<open>The minimal variant: main.go\<close>

definition extractDependencies :: "world \<Rightarrow> string \<Rightarrow> error + string list" where
  "extractDependencies w data =
     (case yaml_Unmarshal_min (yaml_parse w data) of
        (p, True) \<Rightarrow> Inl YamlError
      | (p, False) \<Rightarrow> Inr (range_keys (min_Dependencies p) @ range_keys (min_DevDependencies p)))"

definition contents_request :: "string \<Rightarrow> string \<Rightarrow> string" where
  "contents_request owner repo = ''repos/'' @ owner @ ''/'' @ repo @ ''/contents/pubspec.yaml''"

text \<open>
  The goroutine's body of \<^verbatim>\<open>collectDependencies\<close> up to \<^verbatim>\<open>mu.Lock()\<close>. \<^verbatim>\<open>GetContents\<close> returns
  a nil file without an error when the path is a directory, and \<^verbatim>\<open>content.GetContent()\<close>
  reads a field of its receiver.
\<close>

definition process_repo_min :: "world \<Rightarrow> string \<Rightarrow> string list \<times> string list task" where
  "process_repo_min w r =
     (case splitRepo r of
        (owner, repo, ok) \<Rightarrow>
          if \<not> ok then ([], Skipped InvalidRepoFormat)
          else
            (case GetContents w owner repo of
               GhError \<Rightarrow> ([contents_request owner repo], Skipped (FetchError ApiError))
             | GhNil \<Rightarrow> ([contents_request owner repo], Crashed)
             | GhFile None \<Rightarrow> ([contents_request owner repo], Skipped (ReadError ContentError))
             | GhFile (Some data) \<Rightarrow>
                 (case extractDependencies w data of
                    Inl e \<Rightarrow> ([contents_request owner repo], Skipped (ParseError e))
                  | Inr ds \<Rightarrow> ([contents_request owner repo], Parsed ds))))"

fun run_tasks_min ::
  "world \<Rightarrow> string list \<Rightarrow> go_int go_map \<Rightarrow> string list \<times> go_int go_map option" where
  "run_tasks_min w [] allDeps = ([], Some allDeps)"
| "run_tasks_min w (r # rest) allDeps =
     (case process_repo_min w r of
        (reqs, Crashed) \<Rightarrow> (reqs, None)
      | (reqs, Skipped why) \<Rightarrow>
          (case run_tasks_min w rest allDeps of (reqs', res) \<Rightarrow> (reqs @ reqs', res))
      | (reqs, Parsed ds) \<Rightarrow>
          (case run_tasks_min w rest (incr_all allDeps ds) of
             (reqs', res) \<Rightarrow> (reqs @ reqs', res)))"

text \<open>
  \<^verbatim>\<open>sem := make(chan struct{}, limit)\<close> panics for a negative \<open>limit\<close>. With \<open>limit = 0\<close> the
  channel is unbuffered and nobody receives from it before sending, so every task blocks
  in \<^verbatim>\<open>sem <- struct{}{}\<close> and \<^verbatim>\<open>wg.Wait()\<close> never returns: the runtime ends the process.
\<close>

definition collectDependencies ::
  "world \<Rightarrow> string list \<Rightarrow> go_int \<Rightarrow> string list \<times> go_int go_map option" where
  "collectDependencies w repos limit =
     (if sint limit < 0 then ([], None)
      else if limit = 0 \<and> repos \<noteq> [] then ([], None)
      else run_tasks_min w repos [])"

fun readEnvToken_scan :: "string list \<Rightarrow> string option" where
  "readEnvToken_scan [] = None"
| "readEnvToken_scan (text # rest) =
     (let line = strings_TrimSpace text in
      if strings_HasPrefix line ''GITHUB_TOKEN=''
      then Some (strings_TrimPrefix line ''GITHUB_TOKEN='')
      else readEnvToken_scan rest)"

definition readEnvToken :: "os_env \<Rightarrow> string \<Rightarrow> error + string" where
  "readEnvToken os path =
     (case scanner_lines os path of
        None \<Rightarrow> Inl OpenError
      | Some (lines, err) \<Rightarrow>
          (case readEnvToken_scan lines of
             Some token \<Rightarrow> Inr token
           | None \<Rightarrow> if err then Inl ScanError else Inr []))"

definition readRepos :: "os_env \<Rightarrow> string \<Rightarrow> error + string list" where
  "readRepos os path =
     (case os_ReadFile os path of
        None \<Rightarrow> Inl OpenError
      | Some data \<Rightarrow>
          Inr (filter (\<lambda>line. line \<noteq> [])
                 (map strings_TrimSpace (strings_Split data (CHR 0x0A)))))"

record flags_min =
  reposFile :: string
  outFile :: string
  envFile :: string
  limit :: go_int
  showHelp :: bool

definition default_flags_min :: flags_min where
  "default_flags_min =
     \<lparr>reposFile = [], outFile = [], envFile = [], limit = 5, showHelp = False\<rparr>"

definition main_minimal :: "flags_min \<Rightarrow> os_env \<Rightarrow> world \<Rightarrow> (go_int go_map) outcome" where
  "main_minimal fl os w =
     (if showHelp fl then
        \<lparr>exit_status = 0, printed = Usage, requests = [], written = None\<rparr>
      else if reposFile fl = [] \<or> outFile fl = [] \<or> envFile fl = [] then
        \<lparr>exit_status = 1, printed = MissingArguments, requests = [], written = None\<rparr>
      else
        (case readEnvToken os (envFile fl) of
           Inl e \<Rightarrow>
             \<lparr>exit_status = 1, printed = ReadTokenFailed, requests = [], written = None\<rparr>
         | Inr token \<Rightarrow>
             if token = [] then
               \<lparr>exit_status = 1, printed = TokenNotFound, requests = [], written = None\<rparr>
             else
               (case readRepos os (reposFile fl) of
                  Inl e \<Rightarrow>
                    \<lparr>exit_status = 1, printed = ReadReposFailed, requests = [],
                      written = None\<rparr>
                | Inr repos \<Rightarrow>
                    (case collectDependencies w repos (limit fl) of
                       (reqs, None) \<Rightarrow>
                         \<lparr>exit_status = 2, printed = Aborted, requests = reqs,
                           written = None\<rparr>
                     | (reqs, Some allDeps) \<Rightarrow>
                         if \<not> os_WriteFile_ok os (outFile fl) then
                           \<lparr>exit_status = 1, printed = WriteFailed, requests = reqs,
                             written = None\<rparr>
                         else
                           \<lparr>exit_status = 0, printed = Success, requests = reqs,
                             written = Some allDeps\<rparr>))))"

section \<open>Notions of the claims\<close>

text \<open>
  \<open>declares sel w p r\<close>: in world \<open>w\<close> the extended variant processes repository \<open>r\<close> up to
  the merge, and the manifest it merges declares package \<open>p\<close> in section \<open>sel\<close>.
\<close>

definition declares :: "(Pubspec \<Rightarrow> yaml_value go_map option) \<Rightarrow> world \<Rightarrow> string \<Rightarrow> string \<Rightarrow> bool" where
  "declares sel w p r =
     (case snd (process_repo w r) of
        Parsed ps \<Rightarrow> p \<in> set (range_keys (sel ps))
      | _ \<Rightarrow> False)"

text \<open>
  \<open>manifest_min w r\<close>: the manifest the minimal variant decodes for repository \<open>r\<close>, when
  it gets that far without an error; \<open>declarations_min w p r\<close>: in how many of its two
  sections that manifest declares \<open>p\<close> (0 for a repository that is skipped).
\<close>

definition manifest_min :: "world \<Rightarrow> string \<Rightarrow> Pubspec_min option" where
  "manifest_min w r =
     (case splitRepo r of
        (owner, repo, ok) \<Rightarrow>
          if \<not> ok then None
          else
            (case GetContents w owner repo of
               GhFile (Some data) \<Rightarrow>
                 (case yaml_Unmarshal_min (yaml_parse w data) of
                    (ps, True) \<Rightarrow> None
                  | (ps, False) \<Rightarrow> Some ps)
             | _ \<Rightarrow> None))"

definition declarations_min :: "world \<Rightarrow> string \<Rightarrow> string \<Rightarrow> nat" where
  "declarations_min w p r =
     (case manifest_min w r of
        None \<Rightarrow> 0
      | Some ps \<Rightarrow>
          (if p \<in> set (range_keys (min_Dependencies ps)) then 1 else 0)
            + (if p \<in> set (range_keys (min_DevDependencies ps)) then 1 else 0))"

section \<open>A world to run the programs in\<close>

text \<open>
  Repositories \<^verbatim>\<open>a/b\<close> with one branch, \<^verbatim>\<open>c/d\<close> whose manifest request is answered 404,
  \<^verbatim>\<open>e/f\<close> with branches dated 2023-01-01, 2024-06-01 and 2023-12-31, \<^verbatim>\<open>g/h\<close> whose manifest
  is not YAML, and \<^verbatim>\<open>p/q\<close> whose manifest has a scalar where the dev section should be.
  A request for a URL with a percent sign cannot be built.
\<close>

definition example_manifest :: "string \<Rightarrow> yaml_doc" where
  "example_manifest text =
     (if text = ''one'' then
        TopLevel (\<lambda>k. if k = ''dependencies''
                       then Entries [(''http'', YScalar ''^1.0''), (''provider'', YScalar ''^6.0'')]
                       else if k = ''dev_dependencies'' then Entries [(''http'', YScalar ''^1.0'')]
                       else Absent)
      else if text = ''three'' then
        TopLevel (\<lambda>k. if k = ''dependencies''
                       then Entries [(''provider'', YNull), (''dio'', YScalar ''^5.0'')]
                       else if k = ''dependency_overrides'' then Null
                       else Absent)
      else if text = ''partial'' then
        TopLevel (\<lambda>k. if k = ''dependencies'' then Entries [(''http'', YScalar ''^1.0'')]
                       else if k = ''dev_dependencies'' then NotAMapping
                       else Absent)
      else if text = ''empty'' then
        TopLevel (\<lambda>k. if k = ''dev_dependencies'' then Null else Absent)
      else Unparseable)"

definition example_world :: world where
  "example_world =
     \<lparr>NewRequest_ok = (\<lambda>url. CHR ''%'' \<notin> set url),
      client_Do = (\<lambda>url.
        if url = ''https://api.github.com/repos/a/b/branches'' then Response 200 ''branches-ab''
        else if url = ''https://api.github.com/repos/c/d/branches'' then Response 200 ''branches-cd''
        else if url = ''https://api.github.com/repos/e/f/branches'' then Response 200 ''branches-ef''
        else if url = ''https://api.github.com/repos/g/h/branches'' then Response 200 ''branches-ab''
        else if url = ''https://api.github.com/repos/p/q/branches'' then Response 200 ''branches-ab''
        else if url = ''https://api.github.com/repos/a/b/contents/pubspec.yaml?ref=main''
          then Response 200 ''file-ab''
        else if url = ''https://api.github.com/repos/e/f/contents/pubspec.yaml?ref=next''
          then Response 200 ''file-ef''
        else if url = ''https://api.github.com/repos/g/h/contents/pubspec.yaml?ref=main''
          then Response 200 ''file-gh''
        else if url = ''https://api.github.com/repos/p/q/contents/pubspec.yaml?ref=main''
          then Response 200 ''file-pq''
        else Response 404 ''Not Found''),
      json_Branches = (\<lambda>body.
        if body = ''branches-ab'' then Some [\<lparr>Name = ''main'', Date = 20240101\<rparr>]
        else if body = ''branches-cd'' then Some [\<lparr>Name = ''master'', Date = 20220101\<rparr>]
        else if body = ''branches-ef'' then
          Some [\<lparr>Name = ''old'', Date = 20230101\<rparr>, \<lparr>Name = ''next'', Date = 20240601\<rparr>,
                \<lparr>Name = ''main'', Date = 20231231\<rparr>]
        else None),
      json_FileContent = (\<lambda>body.
        if body = ''file-ab'' then Some \<lparr>Content = ''b25l''\<rparr>
        else if body = ''file-ef'' then Some \<lparr>Content = ''dGhyZWU=''\<rparr>
        else if body = ''file-gh'' then Some \<lparr>Content = ''Z2FyYmFnZQ==''\<rparr>
        else if body = ''file-pq'' then Some \<lparr>Content = ''cGFydGlhbA==''\<rparr>
        else None),
      base64_DecodeString = (\<lambda>s.
        if s = ''b25l'' then Some ''one''
        else if s = ''dGhyZWU='' then Some ''three''
        else if s = ''Z2FyYmFnZQ=='' then Some ''garbage''
        else if s = ''cGFydGlhbA=='' then Some ''partial''
        else None),
      yaml_parse = example_manifest,
      GetContents = (\<lambda>owner repo.
        if owner = ''a'' \<and> repo = ''b'' then GhFile (Some ''one'')
        else if owner = ''e'' \<and> repo = ''f'' then GhFile (Some ''three'')
        else if owner = ''g'' \<and> repo = ''h'' then GhFile (Some ''garbage'')
        else if owner = ''p'' \<and> repo = ''q'' then GhFile (Some ''partial'')
        else GhError)\<rparr>"

text \<open>
  A process environment with the token in \<^verbatim>\<open>.env\<close> and the three repositories in
  \<^verbatim>\<open>repos.txt\<close>, and the flags that name them.
\<close>

definition example_os :: os_env where
  "example_os =
     \<lparr>environ_token = None,
      dotenv_token = (\<lambda>path. if path = ''.env'' then Some ''ghp_example'' else None),
      os_ReadFile = (\<lambda>path.
        if path = ''repos.txt'' then Some (''a/b'' @ [CHR 0x0A] @ ''c/d'' @ [CHR 0x0A] @ ''e/f'' @ [CHR 0x0A])
        else None),
      os_WriteFile_ok = (\<lambda>path. path = ''stats.json''),
      scanner_lines = (\<lambda>path.
        if path = ''.env'' then Some ([''# token'', ''GITHUB_TOKEN=ghp_example''], False)
        else None)\<rparr>"

definition example_flags :: flags where
  "example_flags =
     \<lparr>envPath = ''.env'', reposPath = ''repos.txt'', outPath = ''stats.json'', minUsage = 1,
      helpFlag = False\<rparr>"

definition example_flags_min :: flags_min where
  "example_flags_min =
     \<lparr>reposFile = ''repos.txt'', outFile = ''stats.json'', envFile = ''.env'', limit = 5,
      showHelp = False\<rparr>"

definition example_repos :: "string list" where
  "example_repos = [''a/b'', ''c/d'', ''e/f'']"

definition example_doc_ab :: yaml_doc where
  "example_doc_ab = TopLevel (\<lambda>k. Entries [(''a'', YScalar ''^1.0''), (''b'', YNull)])"

definition example_doc_bc :: yaml_doc where
  "example_doc_bc = TopLevel (\<lambda>k. Entries [(''b'', YScalar ''any''), (''c'', YMap [])])"

section \<open>The report: filtering by the minimum usage\<close>

lemma map_of_filter_min:
  "distinct (map fst cs) \<Longrightarrow>
   map_of (filter_min m cs out) p =
     (case map_of cs p of
        None \<Rightarrow> map_of out p
      | Some c \<Rightarrow> if sint m \<le> sint c then Some \<lparr>count = c, url = pub_dev_url p\<rparr>
                  else map_of out p)"
proof (induction cs arbitrary: out)
  case Nil
  then show ?case by simp
next
  case (Cons kv cs)
  obtain k c where kv: "kv = (k, c)" by (cases kv)
  from Cons.prems kv have d: "distinct (map fst cs)" and nk: "k \<notin> fst ` set cs" by auto
  from nk have none: "map_of cs k = None" by (simp add: map_of_eq_None_iff)
  show ?case
    using Cons.IH [OF d] none kv
    by (auto simp: update_conv' split: option.splits)
qed

text \<open>
  Claim C2. For every counter mapping (a Go map: its keys are pairwise different) and every
  \<open>m\<close> given as \<^verbatim>\<open>--min\<close>, each of the three sections of the report holds a package \<open>p\<close>
  exactly when the counters hold it with a count \<open>c\<close> such that \<open>c >= m\<close> (as signed Go
  ints), and the entry is then the raw count with the URL
  \<^verbatim>\<open>https://pub.dev/packages/<p>\<close>. The flag's default is 1.
\<close>

theorem buildReport_filters_by_minUsage:
  assumes "distinct (map fst (deps stats))"
    and "distinct (map fst (devDeps stats))"
    and "distinct (map fst (overrides stats))"
  shows "map_of (dependencies (buildReport stats m)) p =
           (case map_of (deps stats) p of
              None \<Rightarrow> None
            | Some c \<Rightarrow> if sint m \<le> sint c
                then Some \<lparr>count = c, url = ''https://pub.dev/packages/'' @ p\<rparr> else None)
       \<and> map_of (dev_dependencies (buildReport stats m)) p =
           (case map_of (devDeps stats) p of
              None \<Rightarrow> None
            | Some c \<Rightarrow> if sint m \<le> sint c
                then Some \<lparr>count = c, url = ''https://pub.dev/packages/'' @ p\<rparr> else None)
       \<and> map_of (dependency_overrides (buildReport stats m)) p =
           (case map_of (overrides stats) p of
              None \<Rightarrow> None
            | Some c \<Rightarrow> if sint m \<le> sint c
                then Some \<lparr>count = c, url = ''https://pub.dev/packages/'' @ p\<rparr> else None)
       \<and> minUsage default_flags = 1"
  using assms
  by (simp add: buildReport_def map_of_filter_min pub_dev_url_def default_flags_def
      split: option.splits)

text \<open>The example of the claim: counts \<^verbatim>\<open>{flutter: 3, http: 1}\<close> and \<^verbatim>\<open>--min 2\<close>.\<close>

theorem buildReport_filters_by_minUsage_witness:
  "map_of (dependencies (buildReport
      \<lparr>deps = [(''flutter'', 3), (''http'', 1)], devDeps = [], overrides = []\<rparr> 2)) ''flutter''
     = Some \<lparr>count = 3, url = ''https://pub.dev/packages/flutter''\<rparr>
   \<and> map_of (dependencies (buildReport
      \<lparr>deps = [(''flutter'', 3), (''http'', 1)], devDeps = [], overrides = []\<rparr> 2)) ''http''
     = None
   \<and> dependencies (buildReport
      \<lparr>deps = [(''flutter'', 3), (''http'', 1)], devDeps = [], overrides = []\<rparr> 2)
     = [(''flutter'', \<lparr>count = 3, url = ''https://pub.dev/packages/flutter''\<rparr>)]"
  using buildReport_filters_by_minUsage
    [of "\<lparr>deps = [(''flutter'', 3), (''http'', 1)], devDeps = [], overrides = []\<rparr>" 2 "''flutter''"]
    buildReport_filters_by_minUsage
    [of "\<lparr>deps = [(''flutter'', 3), (''http'', 1)], devDeps = [], overrides = []\<rparr>" 2 "''http''"]
  by (simp add: buildReport_def pub_dev_url_def)

section \<open>Counting declarations\<close>

lemma map_of_incr:
  "map_of (incr m k) p = (if p = k then Some (lookup0 m k + 1) else map_of m p)"
  by (simp add: incr_def map_of_map_default lookup0_def split: option.splits)

lemma lookup0_incr:
  "lookup0 (incr m k) p = (if p = k then lookup0 m k + 1 else lookup0 m p)"
  by (simp add: lookup0_def [of "incr m k"] map_of_incr) (simp add: lookup0_def)

lemma lookup0_incr_all:
  "lookup0 (incr_all m ks) p = lookup0 m p + of_nat (count_list ks p)"
  by (induction ks arbitrary: m) (auto simp: lookup0_incr)

lemma map_of_incr_all:
  "map_of (incr_all m ks) p =
     (if p \<in> set ks then Some (lookup0 m p + of_nat (count_list ks p)) else map_of m p)"
proof (induction ks arbitrary: m)
  case Nil
  show ?case by simp
next
  case (Cons k ks)
  show ?case
    by (auto simp: Cons.IH map_of_incr lookup0_incr)
qed

lemma distinct_incr: "distinct (map fst m) \<Longrightarrow> distinct (map fst (incr m k))"
  by (simp add: incr_def distinct_map_default)

lemma distinct_incr_all: "distinct (map fst m) \<Longrightarrow> distinct (map fst (incr_all m ks))"
  by (induction ks arbitrary: m) (auto simp: distinct_incr)

lemma count_list_distinct: "distinct ks \<Longrightarrow> count_list ks p = (if p \<in> set ks then 1 else 0)"
  by (induction ks) auto

lemma distinct_decode_map: "distinct (range_keys (fst (decode_map s)))"
  by (cases s) auto

lemma distinct_parsePubspec:
  "distinct (range_keys (Dependencies (parsePubspec w c)))"
  "distinct (range_keys (DevDependencies (parsePubspec w c)))"
  "distinct (range_keys (DependencyOverrides (parsePubspec w c)))"
  by (auto simp: parsePubspec_def yaml_Unmarshal_def distinct_decode_map split: yaml_doc.splits)

lemma process_repo_Parsed:
  "process_repo w r = (reqs, Parsed ps) \<Longrightarrow> \<exists>c. ps = parsePubspec w c"
  by (auto simp: process_repo_def Let_def split: if_splits prod.splits result.splits)



lemma map_of_lookup0:
  "map_of m p = (if p \<in> fst ` set m then Some (lookup0 m p) else None)"
  by (auto simp: lookup0_def map_of_eq_None_iff split: option.splits)

lemma dom_incr_all: "fst ` set (incr_all m ks) = fst ` set m \<union> set ks"
  by (induction ks arbitrary: m) (auto simp: incr_def dom_map_default)

lemma run_tasks_section:
  assumes merge: "\<And>st ps. fld (merge_Pubspec st ps) = incr_all (fld st) (range_keys (sel ps))"
    and dist: "\<And>c. distinct (range_keys (sel (parsePubspec w c)))"
    and run: "run_tasks w repos st = (reqs, Some st')"
  shows "lookup0 (fld st') p =
           lookup0 (fld st) p + of_nat (length (filter (declares sel w p) repos))
       \<and> (p \<in> fst ` set (fld st') \<longleftrightarrow>
           p \<in> fst ` set (fld st) \<or> (\<exists>r \<in> set repos. declares sel w p r))"
  using run
proof (induction repos arbitrary: st reqs)
  case Nil
  then show ?case by simp
next
  case (Cons r rest)
  obtain rq t where pr: "process_repo w r = (rq, t)" by (cases "process_repo w r")
  show ?case
  proof (cases t)
    case Crashed
    with Cons.prems pr show ?thesis by simp
  next
    case (Skipped why)
    with Cons.prems pr obtain rq' where "run_tasks w rest st = (rq', Some st')"
      by (auto split: prod.splits)
    from Cons.IH [OF this] Skipped pr show ?thesis by (simp add: declares_def)
  next
    case (Parsed ps)
    with Cons.prems pr obtain rq' where run: "run_tasks w rest (merge_Pubspec st ps) = (rq', Some st')"
      by (auto split: prod.splits)
    from pr Parsed obtain c where ps: "ps = parsePubspec w c"
      using process_repo_Parsed by blast
    have d: "distinct (range_keys (sel ps))" unfolding ps by (rule dist)
    have decl: "declares sel w p r \<longleftrightarrow> p \<in> set (range_keys (sel ps))"
      using pr Parsed by (simp add: declares_def)
    have l: "lookup0 (fld (merge_Pubspec st ps)) p =
        lookup0 (fld st) p + (if declares sel w p r then 1 else 0)"
      by (simp add: merge lookup0_incr_all count_list_distinct [OF d] decl)
    have m: "p \<in> fst ` set (fld (merge_Pubspec st ps)) \<longleftrightarrow>
        p \<in> fst ` set (fld st) \<or> declares sel w p r"
      by (simp add: merge dom_incr_all decl)
    from Cons.IH [OF run] have
      a: "lookup0 (fld st') p = lookup0 (fld (merge_Pubspec st ps)) p
            + of_nat (length (filter (declares sel w p) rest))"
      and b: "p \<in> fst ` set (fld st') \<longleftrightarrow>
            p \<in> fst ` set (fld (merge_Pubspec st ps)) \<or> (\<exists>r \<in> set rest. declares sel w p r)"
      by blast+
    have "lookup0 (fld st') p =
        lookup0 (fld st) p + of_nat (length (filter (declares sel w p) (r # rest)))"
      unfolding a l by simp
    moreover have "p \<in> fst ` set (fld st') \<longleftrightarrow>
        p \<in> fst ` set (fld st) \<or> (\<exists>r \<in> set (r # rest). declares sel w p r)"
      unfolding b m by auto
    ultimately show ?thesis by blast
  qed
qed

lemma run_tasks_counter:
  assumes merge: "\<And>st ps. fld (merge_Pubspec st ps) = incr_all (fld st) (range_keys (sel ps))"
    and dist: "\<And>c. distinct (range_keys (sel (parsePubspec w c)))"
    and empty: "fld st = []"
    and run: "run_tasks w repos st = (reqs, Some st')"
  shows "map_of (fld st') p =
           (if length (filter (declares sel w p) repos) = 0 then None
            else Some (of_nat (length (filter (declares sel w p) repos))))"
proof -
  from run_tasks_section [of fld sel w repos st reqs st' p, OF merge dist run] empty
  have a: "lookup0 (fld st') p = of_nat (length (filter (declares sel w p) repos))"
    and b: "p \<in> fst ` set (fld st') \<longleftrightarrow> (\<exists>r \<in> set repos. declares sel w p r)"
    by (simp_all add: lookup0_def)
  have "length (filter (declares sel w p) repos) = 0 \<longleftrightarrow> \<not> (\<exists>r \<in> set repos. declares sel w p r)"
    by (simp add: filter_empty_conv)
  with a b show ?thesis by (simp add: map_of_lookup0 [of "fld st'"])
qed


lemma distinct_Unmarshal_min:
  "distinct (range_keys (min_Dependencies (fst (yaml_Unmarshal_min d))))"
  "distinct (range_keys (min_DevDependencies (fst (yaml_Unmarshal_min d))))"
  by (auto simp: yaml_Unmarshal_min_def distinct_decode_map split: yaml_doc.splits)

lemma process_repo_min_cases:
  "snd (process_repo_min w r) =
     (case manifest_min w r of
        Some ps \<Rightarrow> Parsed (range_keys (min_Dependencies ps) @ range_keys (min_DevDependencies ps))
      | None \<Rightarrow> snd (process_repo_min w r))
   \<and> (manifest_min w r = None \<longrightarrow> (\<forall>ds. snd (process_repo_min w r) \<noteq> Parsed ds))"
  by (auto simp: process_repo_min_def manifest_min_def extractDependencies_def
      split: prod.splits gh_contents.splits option.splits bool.splits sum.splits if_splits)

lemma process_repo_min_count:
  "(case snd (process_repo_min w r) of Parsed ds \<Rightarrow> count_list ds p | _ \<Rightarrow> 0)
     = declarations_min w p r"
proof (cases "manifest_min w r")
  case None
  with process_repo_min_cases [of w r] show ?thesis
    by (auto simp: declarations_min_def split: task.splits)
next
  case (Some ps)
  then have "\<exists>d. yaml_Unmarshal_min d = (ps, False)"
    by (auto simp: manifest_min_def split: prod.splits gh_contents.splits option.splits
        bool.splits if_splits)
  then obtain d where "yaml_Unmarshal_min d = (ps, False)" by blast
  then have ps: "ps = fst (yaml_Unmarshal_min d)" by simp
  have d1: "distinct (range_keys (min_Dependencies ps))"
    and d2: "distinct (range_keys (min_DevDependencies ps))"
    unfolding ps by (rule distinct_Unmarshal_min)+
  from Some process_repo_min_cases [of w r]
  have "snd (process_repo_min w r) =
      Parsed (range_keys (min_Dependencies ps) @ range_keys (min_DevDependencies ps))"
    by simp
  with Some show ?thesis
    by (simp add: declarations_min_def count_list_distinct [OF d1] count_list_distinct [OF d2])
qed

lemma run_tasks_min_counter:
  assumes "run_tasks_min w repos m = (reqs, Some m')"
  shows "lookup0 m' p = lookup0 m p + of_nat (sum_list (map (declarations_min w p) repos))
       \<and> (p \<in> fst ` set m' \<longleftrightarrow>
           p \<in> fst ` set m \<or> (\<exists>r \<in> set repos. 0 < declarations_min w p r))"
  using assms
proof (induction repos arbitrary: m reqs)
  case Nil
  then show ?case by simp
next
  case (Cons r rest)
  obtain rq t where pr: "process_repo_min w r = (rq, t)" by (cases "process_repo_min w r")
  have cnt: "(case t of Parsed ds \<Rightarrow> count_list ds p | _ \<Rightarrow> 0) = declarations_min w p r"
    using process_repo_min_count [where w = w and r = r and p = p] pr by simp
  show ?case
  proof (cases t)
    case Crashed
    with Cons.prems pr show ?thesis by simp
  next
    case (Skipped why)
    with Cons.prems pr obtain rq' where "run_tasks_min w rest m = (rq', Some m')"
      by (auto split: prod.splits)
    from Cons.IH [OF this] Skipped cnt show ?thesis by simp
  next
    case (Parsed ds)
    with Cons.prems pr obtain rq' where
      run: "run_tasks_min w rest (incr_all m ds) = (rq', Some m')"
      by (auto split: prod.splits)
    from Parsed cnt have c: "count_list ds p = declarations_min w p r" by simp
    have mem: "p \<in> set ds \<longleftrightarrow> 0 < declarations_min w p r"
      unfolding c [symmetric] by (simp add: count_list_0_iff zero_less_iff_neq_zero)
    from Cons.IH [OF run] have
      a: "lookup0 m' p = lookup0 (incr_all m ds) p
            + of_nat (sum_list (map (declarations_min w p) rest))"
      and b: "p \<in> fst ` set m' \<longleftrightarrow>
            p \<in> fst ` set (incr_all m ds) \<or> (\<exists>r \<in> set rest. 0 < declarations_min w p r)"
      by blast+
    have "lookup0 m' p =
        lookup0 m p + of_nat (sum_list (map (declarations_min w p) (r # rest)))"
      unfolding a by (simp add: lookup0_incr_all c)
    moreover have "p \<in> fst ` set m' \<longleftrightarrow>
        p \<in> fst ` set m \<or> (\<exists>r \<in> set (r # rest). 0 < declarations_min w p r)"
      unfolding b by (auto simp: dom_incr_all mem)
    ultimately show ?thesis by blast
  qed
qed

lemma collectDependencies_counter:
  assumes "collectDependencies w repos lim = (reqs, Some allDeps)"
  shows "map_of allDeps p =
           (if sum_list (map (declarations_min w p) repos) = 0 then None
            else Some (of_nat (sum_list (map (declarations_min w p) repos))))"
proof -
  from assms have run: "run_tasks_min w repos [] = (reqs, Some allDeps)"
    by (auto simp: collectDependencies_def split: if_splits)
  from run_tasks_min_counter [OF run, of p]
  have a: "lookup0 allDeps p = of_nat (sum_list (map (declarations_min w p) repos))"
    and b: "p \<in> fst ` set allDeps \<longleftrightarrow> (\<exists>r \<in> set repos. 0 < declarations_min w p r)"
    by (simp_all add: lookup0_def)
  have "sum_list (map (declarations_min w p) repos) = 0
      \<longleftrightarrow> \<not> (\<exists>r \<in> set repos. 0 < declarations_min w p r)"
    by (auto simp: sum_list_eq_0_iff)
  with a b show ?thesis by (simp add: map_of_lookup0 [of allDeps])
qed


lemma distinct_Unmarshal:
  "distinct (range_keys (Dependencies (fst (yaml_Unmarshal d))))"
  "distinct (range_keys (DevDependencies (fst (yaml_Unmarshal d))))"
  "distinct (range_keys (DependencyOverrides (fst (yaml_Unmarshal d))))"
  by (auto simp: yaml_Unmarshal_def distinct_decode_map split: yaml_doc.splits)

lemma lookup0_Nil: "lookup0 [] x = 0"
  by (simp add: lookup0_def)

lemma incr_all_twice:
  assumes "distinct ks" and "distinct ks'"
  shows "map_of (incr_all (incr_all [] ks) ks') x =
           (if x \<in> set ks \<union> set ks'
            then Some ((if x \<in> set ks then 1 else 0) + (if x \<in> set ks' then 1 else 0))
            else None)"
  unfolding map_of_lookup0 [of "incr_all (incr_all [] ks) ks'"]
  using assms
  by (simp add: dom_incr_all lookup0_incr_all count_list_distinct lookup0_Nil)

text \<open>
  Claim C1. Starting from empty counters, after a run that reaches \<^verbatim>\<open>wg.Wait()\<close> the counter
  of a package \<open>p\<close> in a section is the number of repositories of the list that were
  processed up to the merge and whose manifest declares \<open>p\<close> in that section (as a Go int,
  so modulo \<open>2^64\<close>), and \<open>p\<close> has no counter when that number is 0: each repository adds
  at most 1 per section. In the minimal variant the one flat counter is the sum, over the
  repositories, of the number of sections (0, 1 or 2) that declare \<open>p\<close>. Merging two decoded
  manifests whose same section has the keys \<open>{a, b}\<close> and \<open>{b, c}\<close> leaves \<open>b\<close> at 2 and
  \<open>a\<close>, \<open>c\<close> at 1, in each of the three sections.
\<close>

theorem counters_count_declaring_repositories:
  "(run_tasks w repos \<lparr>deps = [], devDeps = [], overrides = []\<rparr> = (reqs, Some stats) \<longrightarrow>
      map_of (deps stats) p =
        (let n = length (filter (declares Dependencies w p) repos)
         in if n = 0 then None else Some (word_of_nat n))
    \<and> map_of (devDeps stats) p =
        (let n = length (filter (declares DevDependencies w p) repos)
         in if n = 0 then None else Some (word_of_nat n))
    \<and> map_of (overrides stats) p =
        (let n = length (filter (declares DependencyOverrides w p) repos)
         in if n = 0 then None else Some (word_of_nat n)))
   \<and> (collectDependencies w repos lim = (reqs', Some allDeps) \<longrightarrow>
      map_of allDeps p =
        (let n = sum_list (map (declarations_min w p) repos)
         in if n = 0 then None else Some (word_of_nat n)))
   \<and> (a \<noteq> b \<and> b \<noteq> c \<and> a \<noteq> c
      \<and> set (range_keys (Dependencies (fst (yaml_Unmarshal d1)))) = {a, b}
      \<and> set (range_keys (Dependencies (fst (yaml_Unmarshal d2)))) = {b, c} \<longrightarrow>
      (let st = merge_Pubspec
                  (merge_Pubspec \<lparr>deps = [], devDeps = [], overrides = []\<rparr>
                     (fst (yaml_Unmarshal d1)))
                  (fst (yaml_Unmarshal d2))
       in map_of (deps st) a = Some 1 \<and> map_of (deps st) b = Some 2
          \<and> map_of (deps st) c = Some 1))
   \<and> (a \<noteq> b \<and> b \<noteq> c \<and> a \<noteq> c
      \<and> set (range_keys (DevDependencies (fst (yaml_Unmarshal d1)))) = {a, b}
      \<and> set (range_keys (DevDependencies (fst (yaml_Unmarshal d2)))) = {b, c} \<longrightarrow>
      (let st = merge_Pubspec
                  (merge_Pubspec \<lparr>deps = [], devDeps = [], overrides = []\<rparr>
                     (fst (yaml_Unmarshal d1)))
                  (fst (yaml_Unmarshal d2))
       in map_of (devDeps st) a = Some 1 \<and> map_of (devDeps st) b = Some 2
          \<and> map_of (devDeps st) c = Some 1))
   \<and> (a \<noteq> b \<and> b \<noteq> c \<and> a \<noteq> c
      \<and> set (range_keys (DependencyOverrides (fst (yaml_Unmarshal d1)))) = {a, b}
      \<and> set (range_keys (DependencyOverrides (fst (yaml_Unmarshal d2)))) = {b, c} \<longrightarrow>
      (let st = merge_Pubspec
                  (merge_Pubspec \<lparr>deps = [], devDeps = [], overrides = []\<rparr>
                     (fst (yaml_Unmarshal d1)))
                  (fst (yaml_Unmarshal d2))
       in map_of (overrides st) a = Some 1 \<and> map_of (overrides st) b = Some 2
          \<and> map_of (overrides st) c = Some 1))"
proof -
  have ext: "map_of (deps stats) p =
        (let n = length (filter (declares Dependencies w p) repos)
         in if n = 0 then None else Some (word_of_nat n))
    \<and> map_of (devDeps stats) p =
        (let n = length (filter (declares DevDependencies w p) repos)
         in if n = 0 then None else Some (word_of_nat n))
    \<and> map_of (overrides stats) p =
        (let n = length (filter (declares DependencyOverrides w p) repos)
         in if n = 0 then None else Some (word_of_nat n))"
    if run: "run_tasks w repos \<lparr>deps = [], devDeps = [], overrides = []\<rparr> = (reqs, Some stats)"
  proof -
    have "map_of (deps stats) p =
        (if length (filter (declares Dependencies w p) repos) = 0 then None
         else Some (of_nat (length (filter (declares Dependencies w p) repos))))"
      by (rule run_tasks_counter [where fld = deps and sel = Dependencies, OF _ _ _ run])
        (simp_all add: merge_Pubspec_def distinct_parsePubspec)
    moreover have "map_of (devDeps stats) p =
        (if length (filter (declares DevDependencies w p) repos) = 0 then None
         else Some (of_nat (length (filter (declares DevDependencies w p) repos))))"
      by (rule run_tasks_counter [where fld = devDeps and sel = DevDependencies, OF _ _ _ run])
        (simp_all add: merge_Pubspec_def distinct_parsePubspec)
    moreover have "map_of (overrides stats) p =
        (if length (filter (declares DependencyOverrides w p) repos) = 0 then None
         else Some (of_nat (length (filter (declares DependencyOverrides w p) repos))))"
      by (rule run_tasks_counter [where fld = overrides and sel = DependencyOverrides,
            OF _ _ _ run])
        (simp_all add: merge_Pubspec_def distinct_parsePubspec)
    ultimately show ?thesis by (simp add: Let_def)
  qed
  have mini: "map_of allDeps p =
        (let n = sum_list (map (declarations_min w p) repos)
         in if n = 0 then None else Some (word_of_nat n))"
    if "collectDependencies w repos lim = (reqs', Some allDeps)"
    using collectDependencies_counter [OF that, of p] by (simp add: Let_def)
  have two: "map_of (incr_all (incr_all [] ks) ks') a = Some 1
      \<and> map_of (incr_all (incr_all [] ks) ks') b = Some 2
      \<and> map_of (incr_all (incr_all [] ks) ks') c = Some (1 :: go_int)"
    if "distinct ks" "distinct ks'" "set ks = {a, b}" "set ks' = {b, c}"
      "a \<noteq> b" "b \<noteq> c" "a \<noteq> c" for ks ks'
    using that by (simp add: incr_all_twice)
  have B1: "a \<noteq> b \<and> b \<noteq> c \<and> a \<noteq> c
      \<and> set (range_keys (Dependencies (fst (yaml_Unmarshal d1)))) = {a, b}
      \<and> set (range_keys (Dependencies (fst (yaml_Unmarshal d2)))) = {b, c} \<longrightarrow>
      (let st = merge_Pubspec
                  (merge_Pubspec \<lparr>deps = [], devDeps = [], overrides = []\<rparr>
                     (fst (yaml_Unmarshal d1)))
                  (fst (yaml_Unmarshal d2))
       in map_of (deps st) a = Some 1 \<and> map_of (deps st) b = Some 2
          \<and> map_of (deps st) c = Some 1)"
    using two [OF distinct_Unmarshal(1) [of d1] distinct_Unmarshal(1) [of d2]]
    by (simp add: merge_Pubspec_def Let_def)
  have B2: "a \<noteq> b \<and> b \<noteq> c \<and> a \<noteq> c
      \<and> set (range_keys (DevDependencies (fst (yaml_Unmarshal d1)))) = {a, b}
      \<and> set (range_keys (DevDependencies (fst (yaml_Unmarshal d2)))) = {b, c} \<longrightarrow>
      (let st = merge_Pubspec
                  (merge_Pubspec \<lparr>deps = [], devDeps = [], overrides = []\<rparr>
                     (fst (yaml_Unmarshal d1)))
                  (fst (yaml_Unmarshal d2))
       in map_of (devDeps st) a = Some 1 \<and> map_of (devDeps st) b = Some 2
          \<and> map_of (devDeps st) c = Some 1)"
    using two [OF distinct_Unmarshal(2) [of d1] distinct_Unmarshal(2) [of d2]]
    by (simp add: merge_Pubspec_def Let_def)
  have B3: "a \<noteq> b \<and> b \<noteq> c \<and> a \<noteq> c
      \<and> set (range_keys (DependencyOverrides (fst (yaml_Unmarshal d1)))) = {a, b}
      \<and> set (range_keys (DependencyOverrides (fst (yaml_Unmarshal d2)))) = {b, c} \<longrightarrow>
      (let st = merge_Pubspec
                  (merge_Pubspec \<lparr>deps = [], devDeps = [], overrides = []\<rparr>
                     (fst (yaml_Unmarshal d1)))
                  (fst (yaml_Unmarshal d2))
       in map_of (overrides st) a = Some 1 \<and> map_of (overrides st) b = Some 2
          \<and> map_of (overrides st) c = Some 1)"
    using two [OF distinct_Unmarshal(3) [of d1] distinct_Unmarshal(3) [of d2]]
    by (simp add: merge_Pubspec_def Let_def)
  from ext mini B1 B2 B3 show ?thesis by blast
qed


text \<open>
  The run over the three example repositories (the second is skipped), and two manifests
  with the keys \<open>{a, b}\<close> and \<open>{b, c}\<close> in every section.
\<close>

theorem counters_count_declaring_repositories_witness:
  "run_tasks example_world example_repos \<lparr>deps = [], devDeps = [], overrides = []\<rparr> =
     ([''https://api.github.com/repos/a/b/branches'',
       ''https://api.github.com/repos/a/b/contents/pubspec.yaml?ref=main'',
       ''https://api.github.com/repos/c/d/branches'',
       ''https://api.github.com/repos/c/d/contents/pubspec.yaml?ref=master'',
       ''https://api.github.com/repos/e/f/branches'',
       ''https://api.github.com/repos/e/f/contents/pubspec.yaml?ref=next''],
      Some \<lparr>deps = [(''http'', 1), (''provider'', 2), (''dio'', 1)],
            devDeps = [(''http'', 1)], overrides = []\<rparr>)
   \<and> map_of [(''http'', 1), (''provider'', 2), (''dio'', 1 :: go_int)] ''provider''
       = Some (word_of_nat (length (filter (declares Dependencies example_world ''provider'')
           example_repos)))
   \<and> length (filter (declares Dependencies example_world ''provider'') example_repos) = 2
   \<and> collectDependencies example_world example_repos 5 =
     ([''repos/a/b/contents/pubspec.yaml'', ''repos/c/d/contents/pubspec.yaml'',
       ''repos/e/f/contents/pubspec.yaml''],
      Some [(''http'', 2), (''provider'', 2), (''dio'', 1)])
   \<and> map_of [(''http'', 2), (''provider'', 2), (''dio'', 1 :: go_int)] ''http''
       = Some (word_of_nat (sum_list (map (declarations_min example_world ''http'')
           example_repos)))
   \<and> sum_list (map (declarations_min example_world ''http'') example_repos) = 2
   \<and> set (range_keys (Dependencies (fst (yaml_Unmarshal example_doc_ab)))) = {''a'', ''b''}
   \<and> set (range_keys (Dependencies (fst (yaml_Unmarshal example_doc_bc)))) = {''b'', ''c''}
   \<and> (let st = merge_Pubspec
                  (merge_Pubspec \<lparr>deps = [], devDeps = [], overrides = []\<rparr>
                     (fst (yaml_Unmarshal example_doc_ab)))
                  (fst (yaml_Unmarshal example_doc_bc))
       in map_of (deps st) ''a'' = Some 1 \<and> map_of (deps st) ''b'' = Some 2
          \<and> map_of (deps st) ''c'' = Some 1
          \<and> map_of (devDeps st) ''a'' = Some 1 \<and> map_of (devDeps st) ''b'' = Some 2
          \<and> map_of (devDeps st) ''c'' = Some 1
          \<and> map_of (overrides st) ''a'' = Some 1 \<and> map_of (overrides st) ''b'' = Some 2
          \<and> map_of (overrides st) ''c'' = Some 1)"
proof -
  let ?reqs = "[''https://api.github.com/repos/a/b/branches'',
       ''https://api.github.com/repos/a/b/contents/pubspec.yaml?ref=main'',
       ''https://api.github.com/repos/c/d/branches'',
       ''https://api.github.com/repos/c/d/contents/pubspec.yaml?ref=master'',
       ''https://api.github.com/repos/e/f/branches'',
       ''https://api.github.com/repos/e/f/contents/pubspec.yaml?ref=next'']"
  let ?stats = "\<lparr>deps = [(''http'', 1), (''provider'', 2), (''dio'', 1 :: go_int)],
            devDeps = [(''http'', 1 :: go_int)], overrides = [] :: go_int go_map\<rparr>"
  let ?reqs' = "[''repos/a/b/contents/pubspec.yaml'', ''repos/c/d/contents/pubspec.yaml'',
       ''repos/e/f/contents/pubspec.yaml'']"
  let ?all = "[(''http'', 2), (''provider'', 2), (''dio'', 1 :: go_int)]"
  note inst = counters_count_declaring_repositories
    [where w = example_world and repos = example_repos and reqs = ?reqs and stats = ?stats
       and reqs' = ?reqs' and allDeps = ?all and lim = 5
       and a = "''a''" and b = "''b''" and c = "''c''"
       and ?d1.0 = example_doc_ab and ?d2.0 = example_doc_bc]
  have run: "run_tasks example_world example_repos \<lparr>deps = [], devDeps = [], overrides = []\<rparr>
      = (?reqs, Some ?stats)"
    by code_simp
  have col: "collectDependencies example_world example_repos 5 = (?reqs', Some ?all)"
    by code_simp
  have n1: "length (filter (declares Dependencies example_world ''provider'') example_repos) = 2"
    by code_simp
  have n2: "sum_list (map (declarations_min example_world ''http'') example_repos) = 2"
    by code_simp
  have k1: "set (range_keys (Dependencies (fst (yaml_Unmarshal example_doc_ab)))) = {''a'', ''b''}"
    "set (range_keys (DevDependencies (fst (yaml_Unmarshal example_doc_ab)))) = {''a'', ''b''}"
    "set (range_keys (DependencyOverrides (fst (yaml_Unmarshal example_doc_ab)))) = {''a'', ''b''}"
    by (simp_all add: yaml_Unmarshal_def example_doc_ab_def)
  have k2: "set (range_keys (Dependencies (fst (yaml_Unmarshal example_doc_bc)))) = {''b'', ''c''}"
    "set (range_keys (DevDependencies (fst (yaml_Unmarshal example_doc_bc)))) = {''b'', ''c''}"
    "set (range_keys (DependencyOverrides (fst (yaml_Unmarshal example_doc_bc)))) = {''b'', ''c''}"
    by (simp_all add: yaml_Unmarshal_def example_doc_bc_def)
  have ne: "''a'' \<noteq> ''b'' \<and> ''b'' \<noteq> ''c'' \<and> ''a'' \<noteq> ''c''" by simp
  from inst [where p = "''provider''"] run have a: "map_of (deps ?stats) ''provider'' =
      (let n = length (filter (declares Dependencies example_world ''provider'') example_repos)
       in if n = 0 then None else Some (word_of_nat n))"
    by blast
  from inst [where p = "''http''"] col have b: "map_of ?all ''http'' =
      (let n = sum_list (map (declarations_min example_world ''http'') example_repos)
       in if n = 0 then None else Some (word_of_nat n))"
    by blast
  from inst [where p = "''x''"] k1 k2 ne have c:
    "let st = merge_Pubspec
                  (merge_Pubspec \<lparr>deps = [], devDeps = [], overrides = []\<rparr>
                     (fst (yaml_Unmarshal example_doc_ab)))
                  (fst (yaml_Unmarshal example_doc_bc))
       in map_of (deps st) ''a'' = Some 1 \<and> map_of (deps st) ''b'' = Some 2
          \<and> map_of (deps st) ''c'' = Some 1"
    "let st = merge_Pubspec
                  (merge_Pubspec \<lparr>deps = [], devDeps = [], overrides = []\<rparr>
                     (fst (yaml_Unmarshal example_doc_ab)))
                  (fst (yaml_Unmarshal example_doc_bc))
       in map_of (devDeps st) ''a'' = Some 1 \<and> map_of (devDeps st) ''b'' = Some 2
          \<and> map_of (devDeps st) ''c'' = Some 1"
    "let st = merge_Pubspec
                  (merge_Pubspec \<lparr>deps = [], devDeps = [], overrides = []\<rparr>
                     (fst (yaml_Unmarshal example_doc_ab)))
                  (fst (yaml_Unmarshal example_doc_bc))
       in map_of (overrides st) ''a'' = Some 1 \<and> map_of (overrides st) ''b'' = Some 2
          \<and> map_of (overrides st) ''c'' = Some 1"
    by blast+
  from a n1 have a': "map_of [(''http'', 1), (''provider'', 2), (''dio'', 1 :: go_int)] ''provider''
       = Some (word_of_nat (length (filter (declares Dependencies example_world ''provider'')
           example_repos)))"
    by (simp add: Let_def)
  from b n2 have b': "map_of ?all ''http''
       = Some (word_of_nat (sum_list (map (declarations_min example_world ''http'')
           example_repos)))"
    by (simp add: Let_def)
  from c have c': "let st = merge_Pubspec
                  (merge_Pubspec \<lparr>deps = [], devDeps = [], overrides = []\<rparr>
                     (fst (yaml_Unmarshal example_doc_ab)))
                  (fst (yaml_Unmarshal example_doc_bc))
       in map_of (deps st) ''a'' = Some 1 \<and> map_of (deps st) ''b'' = Some 2
          \<and> map_of (deps st) ''c'' = Some 1
          \<and> map_of (devDeps st) ''a'' = Some 1 \<and> map_of (devDeps st) ''b'' = Some 2
          \<and> map_of (devDeps st) ''c'' = Some 1
          \<and> map_of (overrides st) ''a'' = Some 1 \<and> map_of (overrides st) ''b'' = Some 2
          \<and> map_of (overrides st) ''c'' = Some 1"
    by (simp add: Let_def)
  from run a' n1 col b' n2 k1(1) k2(1) c' show ?thesis by blast
qed


lemma collectDependencies_lookup0:
  assumes "collectDependencies w repos lim = (reqs, Some allDeps)"
  shows "lookup0 allDeps p = of_nat (sum_list (map (declarations_min w p) repos))"
proof -
  from assms have run: "run_tasks_min w repos [] = (reqs, Some allDeps)"
    by (auto simp: collectDependencies_def split: if_splits)
  from run_tasks_min_counter [OF run, of p] show ?thesis by (simp add: lookup0_Nil)
qed

text \<open>
  Claim C10. In the minimal variant the counter written for a package is the sum over the
  repositories of the number of its manifest's sections, runtime and dev, that declare
  the package. A repository whose manifest declares \<open>p\<close> in both sections hands \<open>p\<close> twice
  to the merge loop and so adds 2: a run with that repository ends with \<open>p\<close> two higher
  than the run over the same list without it.
\<close>

theorem minimal_variant_sums_both_sections:
  "(collectDependencies w repos lim = (reqs, Some allDeps) \<longrightarrow>
      lookup0 allDeps p = word_of_nat (sum_list (map (declarations_min w p) repos)))
   \<and> (manifest_min w r = Some ps
       \<and> p \<in> set (range_keys (min_Dependencies ps))
       \<and> p \<in> set (range_keys (min_DevDependencies ps)) \<longrightarrow>
      declarations_min w p r = 2
      \<and> (\<exists>rq ds. process_repo_min w r = (rq, Parsed ds) \<and> count_list ds p = 2)
      \<and> (run_tasks_min w (xs @ r # ys) [] = (reqs1, Some m1)
          \<and> run_tasks_min w (xs @ ys) [] = (reqs0, Some m0) \<longrightarrow>
          lookup0 m1 p = lookup0 m0 p + 2))"
proof -
  have A: "lookup0 allDeps p = word_of_nat (sum_list (map (declarations_min w p) repos))"
    if "collectDependencies w repos lim = (reqs, Some allDeps)"
    using that by (rule collectDependencies_lookup0)
  have B: "declarations_min w p r = 2
      \<and> (\<exists>rq ds. process_repo_min w r = (rq, Parsed ds) \<and> count_list ds p = 2)
      \<and> (run_tasks_min w (xs @ r # ys) [] = (reqs1, Some m1)
          \<and> run_tasks_min w (xs @ ys) [] = (reqs0, Some m0) \<longrightarrow>
          lookup0 m1 p = lookup0 m0 p + 2)"
    if m: "manifest_min w r = Some ps"
      and d: "p \<in> set (range_keys (min_Dependencies ps))"
      and d': "p \<in> set (range_keys (min_DevDependencies ps))"
  proof -
    from m d d' have two: "declarations_min w p r = 2" by (simp add: declarations_min_def)
    obtain rq t where pr: "process_repo_min w r = (rq, t)" by (cases "process_repo_min w r")
    from process_repo_min_cases [of w r] m pr obtain ds where t: "t = Parsed ds" by simp
    from process_repo_min_count [where w = w and r = r and p = p] pr t two
    have "count_list ds p = 2" by simp
    with pr t have ex: "\<exists>rq ds. process_repo_min w r = (rq, Parsed ds) \<and> count_list ds p = 2"
      by blast
    have diff: "lookup0 m1 p = lookup0 m0 p + 2"
      if r1: "run_tasks_min w (xs @ r # ys) [] = (reqs1, Some m1)"
        and r0: "run_tasks_min w (xs @ ys) [] = (reqs0, Some m0)"
      using run_tasks_min_counter [OF r1, of p] run_tasks_min_counter [OF r0, of p] two
      by (simp add: lookup0_Nil)
    from two ex diff show ?thesis by blast
  qed
  from A B show ?thesis by blast
qed

text \<open>
  Repository \<^verbatim>\<open>a/b\<close> of the example declares \<^verbatim>\<open>http\<close> in both sections.
\<close>

theorem minimal_variant_sums_both_sections_witness:
  "collectDependencies example_world example_repos 5 =
     ([''repos/a/b/contents/pubspec.yaml'', ''repos/c/d/contents/pubspec.yaml'',
       ''repos/e/f/contents/pubspec.yaml''],
      Some [(''http'', 2), (''provider'', 2), (''dio'', 1)])
   \<and> lookup0 [(''http'', 2), (''provider'', 2), (''dio'', 1)] ''http''
       = word_of_nat (sum_list (map (declarations_min example_world ''http'') example_repos))
   \<and> manifest_min example_world ''a/b'' =
       Some \<lparr>min_Dependencies =
               Some [(''http'', YScalar ''^1.0''), (''provider'', YScalar ''^6.0'')],
             min_DevDependencies = Some [(''http'', YScalar ''^1.0'')]\<rparr>
   \<and> declarations_min example_world ''http'' ''a/b'' = 2
   \<and> run_tasks_min example_world ([] @ ''a/b'' # [''e/f'']) [] =
       ([''repos/a/b/contents/pubspec.yaml'', ''repos/e/f/contents/pubspec.yaml''],
        Some [(''http'', 2), (''provider'', 2), (''dio'', 1)])
   \<and> run_tasks_min example_world ([] @ [''e/f'']) [] =
       ([''repos/e/f/contents/pubspec.yaml''], Some [(''provider'', 1), (''dio'', 1)])
   \<and> lookup0 [(''http'', 2), (''provider'', 2), (''dio'', 1)] ''http''
       = lookup0 [(''provider'', 1), (''dio'', 1)] ''http'' + 2"
proof -
  let ?ps = "\<lparr>min_Dependencies =
               Some [(''http'', YScalar ''^1.0''), (''provider'', YScalar ''^6.0'')],
             min_DevDependencies = Some [(''http'', YScalar ''^1.0'')]\<rparr>"
  let ?m1 = "[(''http'', 2), (''provider'', 2), (''dio'', 1 :: go_int)]"
  let ?m0 = "[(''provider'', 1), (''dio'', 1 :: go_int)]"
  let ?rq = "[''repos/a/b/contents/pubspec.yaml'', ''repos/c/d/contents/pubspec.yaml'',
       ''repos/e/f/contents/pubspec.yaml'']"
  note inst = minimal_variant_sums_both_sections
    [where w = example_world and repos = example_repos and lim = 5 and reqs = ?rq
       and allDeps = ?m1 and p = "''http''" and r = "''a/b''" and ps = ?ps
       and xs = "[]" and ys = "[''e/f'']"
       and ?reqs1.0 = "[''repos/a/b/contents/pubspec.yaml'', ''repos/e/f/contents/pubspec.yaml'']"
       and ?m1.0 = ?m1 and ?reqs0.0 = "[''repos/e/f/contents/pubspec.yaml'']" and ?m0.0 = ?m0]
  have col: "collectDependencies example_world example_repos 5 = (?rq, Some ?m1)"
    by code_simp
  have man: "manifest_min example_world ''a/b'' = Some ?ps" by code_simp
  have mem: "''http'' \<in> set (range_keys (min_Dependencies ?ps))"
    "''http'' \<in> set (range_keys (min_DevDependencies ?ps))" by simp_all
  have r1: "run_tasks_min example_world ([] @ ''a/b'' # [''e/f'']) [] =
       ([''repos/a/b/contents/pubspec.yaml'', ''repos/e/f/contents/pubspec.yaml''], Some ?m1)"
    by code_simp
  have r0: "run_tasks_min example_world ([] @ [''e/f'']) [] =
       ([''repos/e/f/contents/pubspec.yaml''], Some ?m0)"
    by code_simp
  from inst col have a: "lookup0 ?m1 ''http''
       = word_of_nat (sum_list (map (declarations_min example_world ''http'') example_repos))"
    by blast
  from inst man mem have b: "declarations_min example_world ''http'' ''a/b'' = 2" by blast
  from inst man mem r1 r0 have c: "lookup0 ?m1 ''http'' = lookup0 ?m0 ''http'' + 2" by blast
  from col a man b r1 r0 c show ?thesis by blast
qed

section \<open>Which lines are fetched\<close>

lemma strings_Split_no_sep: "sep \<notin> set s \<Longrightarrow> strings_Split s sep = [s]"
  by (induction s) auto

lemma strings_Split_one_sep:
  "length (filter (\<lambda>c. c = sep) s) = 1 \<Longrightarrow>
   strings_Split s sep = [takeWhile (\<lambda>c. c \<noteq> sep) s, tl (dropWhile (\<lambda>c. c \<noteq> sep) s)]"
proof (induction s)
  case Nil
  then show ?case by simp
next
  case (Cons c s)
  show ?case
  proof (cases "c = sep")
    case True
    with Cons.prems have "sep \<notin> set s" by (auto simp: filter_empty_conv)
    with True show ?thesis by (simp add: strings_Split_no_sep)
  next
    case False
    with Cons show ?thesis by simp
  qed
qed

lemma length_strings_Split:
  "length (strings_Split s sep) = Suc (length (filter (\<lambda>c. c = sep) s))"
  by (induction s) (auto split: list.splits)

lemma splitRepo_one_slash:
  "length (filter (\<lambda>c. c = CHR ''/'') full) = 1 \<Longrightarrow>
   splitRepo full =
     (takeWhile (\<lambda>c. c \<noteq> CHR ''/'') full, tl (dropWhile (\<lambda>c. c \<noteq> CHR ''/'') full), True)"
  by (simp add: splitRepo_def strings_Split_one_sep)

lemma splitRepo_other:
  "length (filter (\<lambda>c. c = CHR ''/'') full) \<noteq> 1 \<Longrightarrow> splitRepo full = ('''', '''', False)"
  by (simp add: splitRepo_def length_strings_Split)

lemma process_repo_invalid:
  "length (filter (\<lambda>c. c = CHR ''/'') full) \<noteq> 1 \<Longrightarrow>
   process_repo w full = ([], Skipped InvalidRepoFormat)"
  by (simp add: process_repo_def length_strings_Split)

lemma process_repo_min_invalid:
  "length (filter (\<lambda>c. c = CHR ''/'') full) \<noteq> 1 \<Longrightarrow>
   process_repo_min w full = ([], Skipped InvalidRepoFormat)"
  by (simp add: process_repo_min_def splitRepo_other)

lemma getLatestBranch_requests:
  "fst (getLatestBranch w owner repo) =
     (if NewRequest_ok w (branches_url owner repo) then [branches_url owner repo] else [])"
  by (simp add: getLatestBranch_def Let_def)

lemma process_repo_valid:
  assumes "length (filter (\<lambda>c. c = CHR ''/'') full) = 1"
  shows "snd (process_repo w full) \<noteq> Skipped InvalidRepoFormat"
    and "NewRequest_ok w (branches_url (takeWhile (\<lambda>c. c \<noteq> CHR ''/'') full)
            (tl (dropWhile (\<lambda>c. c \<noteq> CHR ''/'') full))) \<Longrightarrow>
         take 1 (fst (process_repo w full)) =
           [branches_url (takeWhile (\<lambda>c. c \<noteq> CHR ''/'') full)
              (tl (dropWhile (\<lambda>c. c \<noteq> CHR ''/'') full))]"
proof -
  let ?owner = "takeWhile (\<lambda>c. c \<noteq> CHR ''/'') full"
  let ?repo = "tl (dropWhile (\<lambda>c. c \<noteq> CHR ''/'') full)"
  have sp: "strings_Split full (CHR ''/'') = [?owner, ?repo]"
    using assms by (rule strings_Split_one_sep)
  obtain rq res where g: "getLatestBranch w ?owner ?repo = (rq, res)"
    by (cases "getLatestBranch w ?owner ?repo")
  show "snd (process_repo w full) \<noteq> Skipped InvalidRepoFormat"
    by (simp add: process_repo_def sp g split: result.splits prod.splits)
  assume ok: "NewRequest_ok w (branches_url ?owner ?repo)"
  with g getLatestBranch_requests [of w ?owner ?repo]
  have rq: "rq = [branches_url ?owner ?repo]" by simp
  show "take 1 (fst (process_repo w full)) = [branches_url ?owner ?repo]"
    by (simp add: process_repo_def sp g rq Let_def split: result.splits prod.splits)
qed

lemma process_repo_min_valid:
  assumes "length (filter (\<lambda>c. c = CHR ''/'') full) = 1"
  shows "snd (process_repo_min w full) \<noteq> Skipped InvalidRepoFormat"
    and "fst (process_repo_min w full) =
           [contents_request (takeWhile (\<lambda>c. c \<noteq> CHR ''/'') full)
              (tl (dropWhile (\<lambda>c. c \<noteq> CHR ''/'') full))]"
  by (simp_all add: process_repo_min_def splitRepo_one_slash [OF assms]
      split: gh_contents.splits option.splits sum.splits)

text \<open>
  Claim C6, as stated, fails: the line \<^verbatim>\<open>/repo\<close> has an empty owner, yet both variants
  accept it and send their request for it.
\<close>

theorem repo_line_with_empty_part_is_fetched:
  "\<not> spec_valid_repo ''/repo''
   \<and> splitRepo ''/repo'' = ('''', ''repo'', True)
   \<and> process_repo example_world ''/repo'' =
       ([''https://api.github.com/repos//repo/branches''], Skipped (BranchError (StatusError 404)))
   \<and> process_repo_min example_world ''/repo'' =
       ([''repos//repo/contents/pubspec.yaml''], Skipped (FetchError ApiError))"
  by code_simp

text \<open>
  Claim C6, amended. A line goes on to the requests exactly when \<^verbatim>\<open>strings.Split(line, "/")\<close>
  has two parts, that is when the line holds exactly one slash; either part may be empty.
  Then the owner is what precedes the slash and the name what follows it, the minimal
  variant sends its contents request, and the extended variant sends its branches request
  first (when that request can be built). Every other line is reported as an invalid
  repo format, sends no request and leaves the counters and the rest of the run as they
  are.
\<close>

theorem repo_line_fetched_iff_one_slash:
  "(length (filter (\<lambda>c. c = CHR ''/'') full) = 1 \<longrightarrow>
      splitRepo full =
        (takeWhile (\<lambda>c. c \<noteq> CHR ''/'') full, tl (dropWhile (\<lambda>c. c \<noteq> CHR ''/'') full), True)
      \<and> snd (process_repo w full) \<noteq> Skipped InvalidRepoFormat
      \<and> snd (process_repo_min w full) \<noteq> Skipped InvalidRepoFormat
      \<and> fst (process_repo_min w full) =
          [contents_request (takeWhile (\<lambda>c. c \<noteq> CHR ''/'') full)
             (tl (dropWhile (\<lambda>c. c \<noteq> CHR ''/'') full))]
      \<and> (NewRequest_ok w (branches_url (takeWhile (\<lambda>c. c \<noteq> CHR ''/'') full)
             (tl (dropWhile (\<lambda>c. c \<noteq> CHR ''/'') full))) \<longrightarrow>
          take 1 (fst (process_repo w full)) =
            [branches_url (takeWhile (\<lambda>c. c \<noteq> CHR ''/'') full)
               (tl (dropWhile (\<lambda>c. c \<noteq> CHR ''/'') full))]))
   \<and> (length (filter (\<lambda>c. c = CHR ''/'') full) \<noteq> 1 \<longrightarrow>
      splitRepo full = ('''', '''', False)
      \<and> process_repo w full = ([], Skipped InvalidRepoFormat)
      \<and> process_repo_min w full = ([], Skipped InvalidRepoFormat)
      \<and> run_tasks w (full # rest) stats = run_tasks w rest stats
      \<and> run_tasks_min w (full # rest) allDeps = run_tasks_min w rest allDeps)"
proof -
  have A: "splitRepo full =
        (takeWhile (\<lambda>c. c \<noteq> CHR ''/'') full, tl (dropWhile (\<lambda>c. c \<noteq> CHR ''/'') full), True)
      \<and> snd (process_repo w full) \<noteq> Skipped InvalidRepoFormat
      \<and> snd (process_repo_min w full) \<noteq> Skipped InvalidRepoFormat
      \<and> fst (process_repo_min w full) =
          [contents_request (takeWhile (\<lambda>c. c \<noteq> CHR ''/'') full)
             (tl (dropWhile (\<lambda>c. c \<noteq> CHR ''/'') full))]
      \<and> (NewRequest_ok w (branches_url (takeWhile (\<lambda>c. c \<noteq> CHR ''/'') full)
             (tl (dropWhile (\<lambda>c. c \<noteq> CHR ''/'') full))) \<longrightarrow>
          take 1 (fst (process_repo w full)) =
            [branches_url (takeWhile (\<lambda>c. c \<noteq> CHR ''/'') full)
               (tl (dropWhile (\<lambda>c. c \<noteq> CHR ''/'') full))])"
    if one: "length (filter (\<lambda>c. c = CHR ''/'') full) = 1"
    using splitRepo_one_slash [OF one] process_repo_valid [OF one, of w]
      process_repo_min_valid [OF one, of w]
    by blast
  have B: "splitRepo full = ('''', '''', False)
      \<and> process_repo w full = ([], Skipped InvalidRepoFormat)
      \<and> process_repo_min w full = ([], Skipped InvalidRepoFormat)
      \<and> run_tasks w (full # rest) stats = run_tasks w rest stats
      \<and> run_tasks_min w (full # rest) allDeps = run_tasks_min w rest allDeps"
    if other: "length (filter (\<lambda>c. c = CHR ''/'') full) \<noteq> 1"
    using splitRepo_other [OF other] process_repo_invalid [OF other, of w]
      process_repo_min_invalid [OF other, of w]
    by simp
  from A B show ?thesis by blast
qed

text \<open>The lines \<^verbatim>\<open>a/b\<close> and \<^verbatim>\<open>a/b/c\<close> in the example world.\<close>

theorem repo_line_fetched_iff_one_slash_witness:
  "length (filter (\<lambda>c. c = CHR ''/'') ''a/b'') = 1
   \<and> splitRepo ''a/b'' = (''a'', ''b'', True)
   \<and> snd (process_repo example_world ''a/b'') \<noteq> Skipped InvalidRepoFormat
   \<and> fst (process_repo_min example_world ''a/b'') = [''repos/a/b/contents/pubspec.yaml'']
   \<and> NewRequest_ok example_world (branches_url ''a'' ''b'')
   \<and> take 1 (fst (process_repo example_world ''a/b'')) =
       [''https://api.github.com/repos/a/b/branches'']
   \<and> length (filter (\<lambda>c. c = CHR ''/'') ''a/b/c'') \<noteq> 1
   \<and> process_repo example_world ''a/b/c'' = ([], Skipped InvalidRepoFormat)
   \<and> process_repo_min example_world ''a/b/c'' = ([], Skipped InvalidRepoFormat)
   \<and> run_tasks example_world [''a/b/c'', ''a/b''] \<lparr>deps = [], devDeps = [], overrides = []\<rparr>
       = run_tasks example_world [''a/b''] \<lparr>deps = [], devDeps = [], overrides = []\<rparr>"
proof -
  have one: "length (filter (\<lambda>c. c = CHR ''/'') ''a/b'') = 1" by simp
  have three: "length (filter (\<lambda>c. c = CHR ''/'') ''a/b/c'') \<noteq> 1" by simp
  have ok: "NewRequest_ok example_world (branches_url ''a'' ''b'')" by code_simp
  have tw: "takeWhile (\<lambda>c. c \<noteq> CHR ''/'') ''a/b'' = ''a''"
    "tl (dropWhile (\<lambda>c. c \<noteq> CHR ''/'') ''a/b'') = ''b''" by simp_all
  note i1 = repo_line_fetched_iff_one_slash
    [where full = "''a/b''" and w = example_world, THEN conjunct1, rule_format, OF one,
      unfolded tw]
  note i2 = repo_line_fetched_iff_one_slash
    [where full = "''a/b/c''" and w = example_world and rest = "[''a/b'']"
       and stats = "\<lparr>deps = [], devDeps = [], overrides = []\<rparr>",
      THEN conjunct2, rule_format, OF three]
  have u: "branches_url ''a'' ''b'' = ''https://api.github.com/repos/a/b/branches''"
    "contents_request ''a'' ''b'' = ''repos/a/b/contents/pubspec.yaml''"
    by (simp_all add: branches_url_def contents_request_def)
  from i1 i2 one three ok show ?thesis unfolding u by blast
qed

section \<open>Sections that are absent or null\<close>

lemma merge_Pubspec_nil:
  "Dependencies ps = None \<Longrightarrow> deps (merge_Pubspec stats ps) = deps stats"
  "DevDependencies ps = None \<Longrightarrow> devDeps (merge_Pubspec stats ps) = devDeps stats"
  "DependencyOverrides ps = None \<Longrightarrow> overrides (merge_Pubspec stats ps) = overrides stats"
  by (simp_all add: merge_Pubspec_def)

lemma merge_Pubspec_zero:
  "merge_Pubspec stats \<lparr>Dependencies = None, DevDependencies = None, DependencyOverrides = None\<rparr>
     = stats"
  by (simp add: merge_Pubspec_def)

text \<open>
  Claim C8. A section that is absent from the manifest or null decodes to a nil map and
  not to an error: whether the decoder returns an error depends on the other sections
  only. Ranging over the nil map visits nothing, so merging the manifest leaves that
  section's counters as they are, and in the minimal variant the flat list holds the keys
  of the other section only.
\<close>

theorem absent_or_null_section_decodes_empty:
  "(s = Absent \<or> s = Null \<longrightarrow>
      decode_map s = (None, False) \<and> range_keys (fst (decode_map s)) = [])
   \<and> (sec ''dependencies'' = Absent \<or> sec ''dependencies'' = Null \<longrightarrow>
      Dependencies (fst (yaml_Unmarshal (TopLevel sec))) = None
      \<and> snd (yaml_Unmarshal (TopLevel sec)) =
          (snd (decode_map (sec ''dev_dependencies''))
           \<or> snd (decode_map (sec ''dependency_overrides'')))
      \<and> deps (merge_Pubspec stats (fst (yaml_Unmarshal (TopLevel sec)))) = deps stats
      \<and> min_Dependencies (fst (yaml_Unmarshal_min (TopLevel sec))) = None
      \<and> snd (yaml_Unmarshal_min (TopLevel sec)) = snd (decode_map (sec ''dev_dependencies''))
      \<and> (yaml_parse w data = TopLevel sec \<and> \<not> snd (decode_map (sec ''dev_dependencies'')) \<longrightarrow>
          extractDependencies w data =
            Inr (range_keys (fst (decode_map (sec ''dev_dependencies''))))))
   \<and> (sec ''dev_dependencies'' = Absent \<or> sec ''dev_dependencies'' = Null \<longrightarrow>
      DevDependencies (fst (yaml_Unmarshal (TopLevel sec))) = None
      \<and> snd (yaml_Unmarshal (TopLevel sec)) =
          (snd (decode_map (sec ''dependencies''))
           \<or> snd (decode_map (sec ''dependency_overrides'')))
      \<and> devDeps (merge_Pubspec stats (fst (yaml_Unmarshal (TopLevel sec)))) = devDeps stats
      \<and> min_DevDependencies (fst (yaml_Unmarshal_min (TopLevel sec))) = None
      \<and> snd (yaml_Unmarshal_min (TopLevel sec)) = snd (decode_map (sec ''dependencies''))
      \<and> (yaml_parse w data = TopLevel sec \<and> \<not> snd (decode_map (sec ''dependencies'')) \<longrightarrow>
          extractDependencies w data =
            Inr (range_keys (fst (decode_map (sec ''dependencies''))))))
   \<and> (sec ''dependency_overrides'' = Absent \<or> sec ''dependency_overrides'' = Null \<longrightarrow>
      DependencyOverrides (fst (yaml_Unmarshal (TopLevel sec))) = None
      \<and> snd (yaml_Unmarshal (TopLevel sec)) =
          (snd (decode_map (sec ''dependencies''))
           \<or> snd (decode_map (sec ''dev_dependencies'')))
      \<and> overrides (merge_Pubspec stats (fst (yaml_Unmarshal (TopLevel sec)))) = overrides stats)"
proof -
  have A: "decode_map s = (None, False) \<and> range_keys (fst (decode_map s)) = []"
    if "s = Absent \<or> s = Null" for s
    using that by auto
  have B: "Dependencies (fst (yaml_Unmarshal (TopLevel sec))) = None
      \<and> snd (yaml_Unmarshal (TopLevel sec)) =
          (snd (decode_map (sec ''dev_dependencies''))
           \<or> snd (decode_map (sec ''dependency_overrides'')))
      \<and> deps (merge_Pubspec stats (fst (yaml_Unmarshal (TopLevel sec)))) = deps stats
      \<and> min_Dependencies (fst (yaml_Unmarshal_min (TopLevel sec))) = None
      \<and> snd (yaml_Unmarshal_min (TopLevel sec)) = snd (decode_map (sec ''dev_dependencies''))
      \<and> (yaml_parse w data = TopLevel sec \<and> \<not> snd (decode_map (sec ''dev_dependencies'')) \<longrightarrow>
          extractDependencies w data =
            Inr (range_keys (fst (decode_map (sec ''dev_dependencies'')))))"
    if "sec ''dependencies'' = Absent \<or> sec ''dependencies'' = Null"
    using A [OF that]
    by (simp add: yaml_Unmarshal_def yaml_Unmarshal_min_def merge_Pubspec_def
        extractDependencies_def)
  have C: "DevDependencies (fst (yaml_Unmarshal (TopLevel sec))) = None
      \<and> snd (yaml_Unmarshal (TopLevel sec)) =
          (snd (decode_map (sec ''dependencies''))
           \<or> snd (decode_map (sec ''dependency_overrides'')))
      \<and> devDeps (merge_Pubspec stats (fst (yaml_Unmarshal (TopLevel sec)))) = devDeps stats
      \<and> min_DevDependencies (fst (yaml_Unmarshal_min (TopLevel sec))) = None
      \<and> snd (yaml_Unmarshal_min (TopLevel sec)) = snd (decode_map (sec ''dependencies''))
      \<and> (yaml_parse w data = TopLevel sec \<and> \<not> snd (decode_map (sec ''dependencies'')) \<longrightarrow>
          extractDependencies w data =
            Inr (range_keys (fst (decode_map (sec ''dependencies'')))))"
    if "sec ''dev_dependencies'' = Absent \<or> sec ''dev_dependencies'' = Null"
    using A [OF that]
    by (simp add: yaml_Unmarshal_def yaml_Unmarshal_min_def merge_Pubspec_def
        extractDependencies_def)
  have D: "DependencyOverrides (fst (yaml_Unmarshal (TopLevel sec))) = None
      \<and> snd (yaml_Unmarshal (TopLevel sec)) =
          (snd (decode_map (sec ''dependencies''))
           \<or> snd (decode_map (sec ''dev_dependencies'')))
      \<and> overrides (merge_Pubspec stats (fst (yaml_Unmarshal (TopLevel sec)))) = overrides stats"
    if "sec ''dependency_overrides'' = Absent \<or> sec ''dependency_overrides'' = Null"
    using A [OF that]
    by (simp add: yaml_Unmarshal_def merge_Pubspec_def)
  from A [of s] B C D show ?thesis by blast
qed


text \<open>
  A manifest with a null \<^verbatim>\<open>dev_dependencies\<close> and nothing else.
\<close>

theorem absent_or_null_section_decodes_empty_witness:
  "example_manifest ''empty'' = TopLevel (\<lambda>k. if k = ''dev_dependencies'' then Null else Absent)
   \<and> decode_map Null = (None, False)
   \<and> yaml_Unmarshal (example_manifest ''empty'') =
       (\<lparr>Dependencies = None, DevDependencies = None, DependencyOverrides = None\<rparr>, False)
   \<and> merge_Pubspec \<lparr>deps = [(''http'', 1)], devDeps = [], overrides = []\<rparr>
        (fst (yaml_Unmarshal (example_manifest ''empty'')))
       = \<lparr>deps = [(''http'', 1)], devDeps = [], overrides = []\<rparr>
   \<and> extractDependencies example_world ''empty'' = Inr []"
proof -
  let ?sec = "\<lambda>k. if k = ''dev_dependencies'' then Null else Absent"
  let ?st = "\<lparr>deps = [(''http'', 1 :: go_int)], devDeps = [] :: go_int go_map,
              overrides = [] :: go_int go_map\<rparr>"
  have doc: "example_manifest ''empty'' = TopLevel ?sec"
    by (simp add: example_manifest_def)
  have parse: "yaml_parse example_world ''empty'' = TopLevel ?sec"
    by (simp add: example_world_def example_manifest_def)
  have h1: "?sec ''dependencies'' = Absent \<or> ?sec ''dependencies'' = Null" by simp
  have h2: "?sec ''dev_dependencies'' = Absent \<or> ?sec ''dev_dependencies'' = Null" by simp
  have h3: "?sec ''dependency_overrides'' = Absent \<or> ?sec ''dependency_overrides'' = Null"
    by simp
  have h0: "Null = Absent \<or> Null = Null" by simp
  note inst = absent_or_null_section_decodes_empty
    [where s = Null and sec = ?sec and stats = ?st and w = example_world and data = "''empty''"]
  from inst h0 have a: "decode_map Null = (None, False)" by blast
  from inst h1 h2 h3 have b:
    "Dependencies (fst (yaml_Unmarshal (TopLevel ?sec))) = None"
    "DevDependencies (fst (yaml_Unmarshal (TopLevel ?sec))) = None"
    "DependencyOverrides (fst (yaml_Unmarshal (TopLevel ?sec))) = None"
    "deps (merge_Pubspec ?st (fst (yaml_Unmarshal (TopLevel ?sec)))) = deps ?st"
    "devDeps (merge_Pubspec ?st (fst (yaml_Unmarshal (TopLevel ?sec)))) = devDeps ?st"
    "overrides (merge_Pubspec ?st (fst (yaml_Unmarshal (TopLevel ?sec)))) = overrides ?st"
    "snd (yaml_Unmarshal (TopLevel ?sec)) =
       (snd (decode_map (?sec ''dev_dependencies''))
        \<or> snd (decode_map (?sec ''dependency_overrides'')))"
    by blast+
  have nd: "\<not> snd (decode_map (?sec ''dev_dependencies''))" by simp
  from inst h1 parse nd have c: "extractDependencies example_world ''empty'' =
      Inr (range_keys (fst (decode_map (?sec ''dev_dependencies''))))"
    by blast
  from b(1-3) b(7) have u: "yaml_Unmarshal (TopLevel ?sec) =
      (\<lparr>Dependencies = None, DevDependencies = None, DependencyOverrides = None\<rparr>, False)"
    by (cases "yaml_Unmarshal (TopLevel ?sec)") (auto intro: Pubspec.equality)
  from b(4-6) have m: "merge_Pubspec ?st (fst (yaml_Unmarshal (TopLevel ?sec))) = ?st"
    by (auto intro: counter.equality)
  from c have c': "extractDependencies example_world ''empty'' = Inr []" by simp
  from doc a u m c' show ?thesis by simp
qed

section \<open>Failures of one repository\<close>

lemma snd_run_tasks_Cons:
  "snd (run_tasks w (r # rest) st) =
     (case snd (process_repo w r) of
        Crashed \<Rightarrow> None
      | Skipped why \<Rightarrow> snd (run_tasks w rest st)
      | Parsed ps \<Rightarrow> snd (run_tasks w rest (merge_Pubspec st ps)))"
  by (cases "process_repo w r") (auto split: task.splits prod.splits)

lemma snd_run_tasks_min_Cons:
  "snd (run_tasks_min w (r # rest) m) =
     (case snd (process_repo_min w r) of
        Crashed \<Rightarrow> None
      | Skipped why \<Rightarrow> snd (run_tasks_min w rest m)
      | Parsed ds \<Rightarrow> snd (run_tasks_min w rest (incr_all m ds)))"
  by (cases "process_repo_min w r") (auto split: task.splits prod.splits)

lemma run_tasks_skip:
  "snd (process_repo w r) = Skipped why \<Longrightarrow>
   snd (run_tasks w (xs @ r # ys) st) = snd (run_tasks w (xs @ ys) st)"
proof (induction xs arbitrary: st)
  case Nil
  then show ?case by (simp add: snd_run_tasks_Cons del: run_tasks.simps)
next
  case (Cons x xs)
  then show ?case
    by (simp add: snd_run_tasks_Cons del: run_tasks.simps split: task.splits)
qed

lemma run_tasks_min_skip:
  "snd (process_repo_min w r) = Skipped why \<Longrightarrow>
   snd (run_tasks_min w (xs @ r # ys) m) = snd (run_tasks_min w (xs @ ys) m)"
proof (induction xs arbitrary: m)
  case Nil
  then show ?case by (simp add: snd_run_tasks_min_Cons del: run_tasks_min.simps)
next
  case (Cons x xs)
  then show ?case
    by (simp add: snd_run_tasks_min_Cons del: run_tasks_min.simps split: task.splits)
qed

lemma run_tasks_None_iff:
  "snd (run_tasks w repos st) = None \<longleftrightarrow> (\<exists>r \<in> set repos. snd (process_repo w r) = Crashed)"
proof (induction repos arbitrary: st)
  case Nil
  show ?case by simp
next
  case (Cons r rest)
  show ?case
    by (cases "snd (process_repo w r)")
      (simp_all add: snd_run_tasks_Cons Cons.IH del: run_tasks.simps)
qed

lemma run_tasks_min_None_iff:
  "snd (run_tasks_min w repos m) = None \<longleftrightarrow>
     (\<exists>r \<in> set repos. snd (process_repo_min w r) = Crashed)"
proof (induction repos arbitrary: m)
  case Nil
  show ?case by simp
next
  case (Cons r rest)
  show ?case
    by (cases "snd (process_repo_min w r)")
      (simp_all add: snd_run_tasks_min_Cons Cons.IH del: run_tasks_min.simps)
qed


text \<open>
  Claim C4, as stated, fails in the extended variant: \<^verbatim>\<open>parsePubspec\<close> has no failure to
  report. The manifest of \<^verbatim>\<open>g/h\<close> is not YAML, and the task is not skipped: it reaches the
  merge, with an empty manifest.
\<close>

theorem unparseable_manifest_is_merged_by_extended:
  "yaml_parse example_world ''garbage'' = Unparseable
   \<and> getPubspec example_world ''g'' ''h'' ''main'' =
       ([''https://api.github.com/repos/g/h/contents/pubspec.yaml?ref=main''], Ok ''garbage'')
   \<and> process_repo example_world ''g/h'' =
       ([''https://api.github.com/repos/g/h/branches'',
         ''https://api.github.com/repos/g/h/contents/pubspec.yaml?ref=main''],
        Parsed \<lparr>Dependencies = None, DevDependencies = None, DependencyOverrides = None\<rparr>)"
proof -
  have "yaml_parse example_world ''garbage'' = Unparseable"
    by (simp add: example_world_def example_manifest_def)
  moreover have "getPubspec example_world ''g'' ''h'' ''main'' =
       ([''https://api.github.com/repos/g/h/contents/pubspec.yaml?ref=main''], Ok ''garbage'')"
    by code_simp
  moreover have "process_repo example_world ''g/h'' =
       ([''https://api.github.com/repos/g/h/branches'',
         ''https://api.github.com/repos/g/h/contents/pubspec.yaml?ref=main''],
        Parsed \<lparr>Dependencies = None, DevDependencies = None, DependencyOverrides = None\<rparr>)"
    by code_simp
  ultimately show ?thesis by blast
qed

text \<open>
  Claim C4, amended. For a manifest text that is not parseable as YAML: in the minimal
  variant \<^verbatim>\<open>extractDependencies\<close> returns the parse failure and the task reports it and is
  skipped; in the extended variant \<^verbatim>\<open>parsePubspec\<close> returns the zero manifest and the task
  goes through the merge. In both the repository adds nothing to any counter: the run
  ends as the run without it.
\<close>

theorem unparseable_manifest_counts_nothing:
  "yaml_parse w data = Unparseable \<longrightarrow>
     extractDependencies w data = Inl YamlError
     \<and> (splitRepo r = (owner, repo, True) \<and> GetContents w owner repo = GhFile (Some data) \<longrightarrow>
         process_repo_min w r = ([contents_request owner repo], Skipped (ParseError YamlError))
         \<and> snd (run_tasks_min w (r # rest) allDeps) = snd (run_tasks_min w rest allDeps))
     \<and> parsePubspec w data =
         \<lparr>Dependencies = None, DevDependencies = None, DependencyOverrides = None\<rparr>
     \<and> merge_Pubspec stats (parsePubspec w data) = stats
     \<and> (strings_Split r (CHR ''/'') = [owner, repo]
         \<and> getLatestBranch w owner repo = (rq, Ok branch)
         \<and> getPubspec w owner repo branch = (rq', Ok data) \<longrightarrow>
         process_repo w r =
           (rq @ rq',
            Parsed \<lparr>Dependencies = None, DevDependencies = None, DependencyOverrides = None\<rparr>)
         \<and> snd (run_tasks w (r # rest) stats) = snd (run_tasks w rest stats))"
proof
  assume un: "yaml_parse w data = Unparseable"
  have a: "extractDependencies w data = Inl YamlError"
    by (simp add: extractDependencies_def yaml_Unmarshal_min_def un)
  have p: "parsePubspec w data =
      \<lparr>Dependencies = None, DevDependencies = None, DependencyOverrides = None\<rparr>"
    by (simp add: parsePubspec_def yaml_Unmarshal_def un)
  have m: "merge_Pubspec stats (parsePubspec w data) = stats"
    by (simp add: p merge_Pubspec_zero)
  have b: "process_repo_min w r = ([contents_request owner repo], Skipped (ParseError YamlError))
         \<and> snd (run_tasks_min w (r # rest) allDeps) = snd (run_tasks_min w rest allDeps)"
    if "splitRepo r = (owner, repo, True)" "GetContents w owner repo = GhFile (Some data)"
  proof -
    from that a have pr: "process_repo_min w r =
        ([contents_request owner repo], Skipped (ParseError YamlError))"
      by (simp add: process_repo_min_def)
    then show ?thesis by (simp add: snd_run_tasks_min_Cons del: run_tasks_min.simps)
  qed
  have c: "process_repo w r =
           (rq @ rq',
            Parsed \<lparr>Dependencies = None, DevDependencies = None, DependencyOverrides = None\<rparr>)
         \<and> snd (run_tasks w (r # rest) stats) = snd (run_tasks w rest stats)"
    if "strings_Split r (CHR ''/'') = [owner, repo]"
      "getLatestBranch w owner repo = (rq, Ok branch)"
      "getPubspec w owner repo branch = (rq', Ok data)"
  proof -
    from that p have pr: "process_repo w r =
        (rq @ rq',
         Parsed \<lparr>Dependencies = None, DevDependencies = None, DependencyOverrides = None\<rparr>)"
      by (simp add: process_repo_def)
    then show ?thesis
      by (simp add: snd_run_tasks_Cons merge_Pubspec_zero del: run_tasks.simps)
  qed
  from a b p m c show "extractDependencies w data = Inl YamlError
     \<and> (splitRepo r = (owner, repo, True) \<and> GetContents w owner repo = GhFile (Some data) \<longrightarrow>
         process_repo_min w r = ([contents_request owner repo], Skipped (ParseError YamlError))
         \<and> snd (run_tasks_min w (r # rest) allDeps) = snd (run_tasks_min w rest allDeps))
     \<and> parsePubspec w data =
         \<lparr>Dependencies = None, DevDependencies = None, DependencyOverrides = None\<rparr>
     \<and> merge_Pubspec stats (parsePubspec w data) = stats
     \<and> (strings_Split r (CHR ''/'') = [owner, repo]
         \<and> getLatestBranch w owner repo = (rq, Ok branch)
         \<and> getPubspec w owner repo branch = (rq', Ok data) \<longrightarrow>
         process_repo w r =
           (rq @ rq',
            Parsed \<lparr>Dependencies = None, DevDependencies = None, DependencyOverrides = None\<rparr>)
         \<and> snd (run_tasks w (r # rest) stats) = snd (run_tasks w rest stats))"
    by blast
qed

text \<open>
  Repository \<^verbatim>\<open>g/h\<close> of the example, in both variants.
\<close>

theorem unparseable_manifest_counts_nothing_witness:
  "yaml_parse example_world ''garbage'' = Unparseable
   \<and> extractDependencies example_world ''garbage'' = Inl YamlError
   \<and> splitRepo ''g/h'' = (''g'', ''h'', True)
   \<and> GetContents example_world ''g'' ''h'' = GhFile (Some ''garbage'')
   \<and> process_repo_min example_world ''g/h'' =
       ([''repos/g/h/contents/pubspec.yaml''], Skipped (ParseError YamlError))
   \<and> snd (run_tasks_min example_world [''g/h'', ''a/b''] []) =
       snd (run_tasks_min example_world [''a/b''] [])
   \<and> strings_Split ''g/h'' (CHR ''/'') = [''g'', ''h'']
   \<and> getLatestBranch example_world ''g'' ''h'' =
       ([''https://api.github.com/repos/g/h/branches''], Ok ''main'')
   \<and> getPubspec example_world ''g'' ''h'' ''main'' =
       ([''https://api.github.com/repos/g/h/contents/pubspec.yaml?ref=main''], Ok ''garbage'')
   \<and> snd (run_tasks example_world [''g/h'', ''a/b'']
             \<lparr>deps = [], devDeps = [], overrides = []\<rparr>) =
       snd (run_tasks example_world [''a/b''] \<lparr>deps = [], devDeps = [], overrides = []\<rparr>)"
proof -
  have un: "yaml_parse example_world ''garbage'' = Unparseable"
    by (simp add: example_world_def example_manifest_def)
  have sp: "splitRepo ''g/h'' = (''g'', ''h'', True)" by code_simp
  have gc: "GetContents example_world ''g'' ''h'' = GhFile (Some ''garbage'')" by code_simp
  have ss: "strings_Split ''g/h'' (CHR ''/'') = [''g'', ''h'']" by code_simp
  have gl: "getLatestBranch example_world ''g'' ''h'' =
       ([''https://api.github.com/repos/g/h/branches''], Ok ''main'')" by code_simp
  have gp: "getPubspec example_world ''g'' ''h'' ''main'' =
       ([''https://api.github.com/repos/g/h/contents/pubspec.yaml?ref=main''], Ok ''garbage'')"
    by code_simp
  have cr: "contents_request ''g'' ''h'' = ''repos/g/h/contents/pubspec.yaml''"
    by (simp add: contents_request_def)
  note inst = unparseable_manifest_counts_nothing
    [where w = example_world and data = "''garbage''" and r = "''g/h''" and owner = "''g''"
       and repo = "''h''" and rest = "[''a/b'']" and allDeps = "[]"
       and stats = "\<lparr>deps = [], devDeps = [], overrides = []\<rparr>"
       and rq = "[''https://api.github.com/repos/g/h/branches'']" and branch = "''main''"
       and rq' = "[''https://api.github.com/repos/g/h/contents/pubspec.yaml?ref=main'']",
      rule_format, OF un]
  from inst sp gc ss gl gp un show ?thesis unfolding cr by blast
qed


lemma exit_status_main_extended:
  "exit_status (main_extended fl os w) = 0
   \<or> (\<exists>file. os_ReadFile os (reposPath fl) = Some file
        \<and> (\<exists>r \<in> set (strings_Fields (strings_TrimSpace file)).
              snd (process_repo w r) = Crashed))"
proof (cases "os_ReadFile os (reposPath fl)")
  case None
  then show ?thesis by (simp add: main_extended_def Let_def)
next
  case (Some body)
  let ?repos = "strings_Fields (strings_TrimSpace body)"
  let ?run = "run_tasks w ?repos \<lparr>deps = [], devDeps = [], overrides = []\<rparr>"
  show ?thesis
  proof (cases "snd ?run")
    case None
    then have "\<exists>r \<in> set ?repos. snd (process_repo w r) = Crashed"
      by (simp add: run_tasks_None_iff)
    with Some show ?thesis by blast
  next
    case (Some stats)
    then obtain rq where "?run = (rq, Some stats)" by (cases ?run) simp
    then have "exit_status (main_extended fl os w) = 0"
      using \<open>os_ReadFile os (reposPath fl) = Some body\<close>
      by (simp add: main_extended_def Let_def)
    then show ?thesis by blast
  qed
qed

lemma main_minimal_success:
  assumes "\<not> showHelp fl" "reposFile fl \<noteq> []" "outFile fl \<noteq> []" "envFile fl \<noteq> []"
    and "readEnvToken os (envFile fl) = Inr token" "token \<noteq> []"
    and "readRepos os (reposFile fl) = Inr repos"
    and "0 < sint (limit fl)"
    and "\<forall>r \<in> set repos. snd (process_repo_min w r) \<noteq> Crashed"
    and "os_WriteFile_ok os (outFile fl)"
  shows "exit_status (main_minimal fl os w) = 0
     \<and> written (main_minimal fl os w) = snd (run_tasks_min w repos [])
     \<and> written (main_minimal fl os w) \<noteq> None"
proof -
  from assms(9) have "snd (run_tasks_min w repos []) \<noteq> None"
    by (simp add: run_tasks_min_None_iff)
  then obtain rq m where run: "run_tasks_min w repos [] = (rq, Some m)"
    by (cases "run_tasks_min w repos []") auto
  from assms(8) have l: "\<not> sint (limit fl) < 0" "limit fl \<noteq> 0" by auto
  from l run have "collectDependencies w repos (limit fl) = (rq, Some m)"
    by (simp add: collectDependencies_def)
  with assms run show ?thesis by (simp add: main_minimal_def)
qed


lemma main_extended_success:
  assumes "\<not> helpFlag fl" "envPath fl \<noteq> []" "reposPath fl \<noteq> []" "outPath fl \<noteq> []"
    and "environ_token os = Some tok
         \<or> environ_token os = None \<and> dotenv_token os (envPath fl) = Some tok"
    and "tok \<noteq> []"
    and "os_ReadFile os (reposPath fl) = Some content"
    and "strings_Fields (strings_TrimSpace content) = lines" "lines \<noteq> []"
    and "\<forall>r \<in> set lines. snd (process_repo w r) \<noteq> Crashed"
    and "os_WriteFile_ok os (outPath fl)"
  shows "exit_status (main_extended fl os w) = 0
     \<and> (\<exists>st. snd (run_tasks w lines \<lparr>deps = [], devDeps = [], overrides = []\<rparr>) = Some st
           \<and> written (main_extended fl os w) = Some (buildReport st (minUsage fl)))"
proof -
  let ?e = "\<lparr>deps = [] :: go_int go_map, devDeps = [] :: go_int go_map,
             overrides = [] :: go_int go_map\<rparr>"
  from assms(10) have "snd (run_tasks w lines ?e) \<noteq> None"
    by (simp add: run_tasks_None_iff)
  then obtain rq st where run: "run_tasks w lines ?e = (rq, Some st)"
    by (cases "run_tasks w lines ?e") auto
  from assms(5,6) have tk: "(case environ_token os of Some t \<Rightarrow> t
      | None \<Rightarrow> (case dotenv_token os (envPath fl) of Some t \<Rightarrow> t | None \<Rightarrow> [])) \<noteq> []"
    by auto
  from assms(1-4) tk assms(7-9,11) run
  have "main_extended fl os w =
      \<lparr>exit_status = 0, printed = Success, requests = rq,
        written = Some (buildReport st (minUsage fl))\<rparr>"
    by (simp add: main_extended_def Let_def)
  with run show ?thesis by simp
qed


text \<open>
  Claim C3, as stated, fails in the extended variant: the manifest of \<^verbatim>\<open>p/q\<close> makes the
  decoder fail (its dev section is a scalar), and the repository is counted all the
  same, for the section that did decode.
\<close>

theorem yaml_decode_error_is_counted_by_extended:
  "snd (yaml_Unmarshal (yaml_parse example_world ''partial''))
   \<and> getPubspec example_world ''p'' ''q'' ''main'' =
       ([''https://api.github.com/repos/p/q/contents/pubspec.yaml?ref=main''], Ok ''partial'')
   \<and> snd (run_tasks example_world [''p/q''] \<lparr>deps = [], devDeps = [], overrides = []\<rparr>) =
       Some \<lparr>deps = [(''http'', 1)], devDeps = [], overrides = []\<rparr>
   \<and> snd (run_tasks example_world [] \<lparr>deps = [], devDeps = [], overrides = []\<rparr>) =
       Some \<lparr>deps = [], devDeps = [], overrides = []\<rparr>"
  by code_simp

text \<open>
  Claim C3, amended. A task that returns early, because the repository string is not of
  two parts, the branch list or the manifest could not be fetched (a 404 for the manifest
  is such a failure) or decoded from base64, or in the minimal variant the content could
  not be read or the YAML not decoded, contributes nothing: the counters of the run are
  those of the run over the list without that repository, whatever stands before and
  after it. All of what follows is under the proviso that no goroutine panics. Under it
  the extended variant exits with status 0, and with a complete configuration, a list
  that is not empty and a file that can be written, what it writes is the report built
  from the counters of that run; the minimal variant exits with 0 and writes the counters
  of that run when the configuration is complete, the limit positive and the file can be
  written. Nothing is stated here of a run in which a goroutine panics.
\<close>

theorem failed_repository_is_skipped:
  "(snd (process_repo w r) = Skipped why \<longrightarrow>
      snd (run_tasks w (xs @ r # ys) stats) = snd (run_tasks w (xs @ ys) stats))
   \<and> (snd (process_repo_min w r) = Skipped why \<longrightarrow>
      snd (run_tasks_min w (xs @ r # ys) allDeps) = snd (run_tasks_min w (xs @ ys) allDeps))
   \<and> (length (strings_Split r (CHR ''/'')) \<noteq> 2 \<longrightarrow>
      snd (process_repo w r) = Skipped InvalidRepoFormat
      \<and> snd (process_repo_min w r) = Skipped InvalidRepoFormat)
   \<and> (strings_Split r (CHR ''/'') = [owner, repo] \<longrightarrow>
      (snd (getLatestBranch w owner repo) = Err e \<longrightarrow>
         snd (process_repo w r) = Skipped (BranchError e))
      \<and> (snd (getLatestBranch w owner repo) = Ok branch
          \<and> snd (getPubspec w owner repo branch) = Err e \<longrightarrow>
         snd (process_repo w r) = Skipped (FetchError e))
      \<and> (NewRequest_ok w (pubspec_url owner repo branch)
          \<and> client_Do w (pubspec_url owner repo branch) = Response 404 body \<longrightarrow>
         snd (getPubspec w owner repo branch) = Err (StatusError 404))
      \<and> (GetContents w owner repo = GhError \<longrightarrow>
         snd (process_repo_min w r) = Skipped (FetchError ApiError))
      \<and> (GetContents w owner repo = GhFile None \<longrightarrow>
         snd (process_repo_min w r) = Skipped (ReadError ContentError))
      \<and> (GetContents w owner repo = GhFile (Some data)
          \<and> extractDependencies w data = Inl e \<longrightarrow>
         snd (process_repo_min w r) = Skipped (ParseError e)))
   \<and> ((\<forall>file. os_ReadFile os (reposPath fl) = Some file \<longrightarrow>
          (\<forall>r \<in> set (strings_Fields (strings_TrimSpace file)).
              snd (process_repo w r) \<noteq> Crashed)) \<longrightarrow>
       exit_status (main_extended fl os w) = 0)
   \<and> (\<not> helpFlag fl \<and> envPath fl \<noteq> [] \<and> reposPath fl \<noteq> [] \<and> outPath fl \<noteq> []
       \<and> (environ_token os = Some tok
           \<or> environ_token os = None \<and> dotenv_token os (envPath fl) = Some tok)
       \<and> tok \<noteq> []
       \<and> os_ReadFile os (reposPath fl) = Some content
       \<and> strings_Fields (strings_TrimSpace content) = lines \<and> lines \<noteq> []
       \<and> (\<forall>r \<in> set lines. snd (process_repo w r) \<noteq> Crashed)
       \<and> os_WriteFile_ok os (outPath fl) \<longrightarrow>
      exit_status (main_extended fl os w) = 0
      \<and> (\<exists>st. snd (run_tasks w lines \<lparr>deps = [], devDeps = [], overrides = []\<rparr>) = Some st
            \<and> written (main_extended fl os w) = Some (buildReport st (minUsage fl))))
   \<and> (\<not> showHelp fl' \<and> reposFile fl' \<noteq> [] \<and> outFile fl' \<noteq> [] \<and> envFile fl' \<noteq> []
       \<and> readEnvToken os (envFile fl') = Inr token \<and> token \<noteq> []
       \<and> readRepos os (reposFile fl') = Inr repos
       \<and> 0 < sint (limit fl')
       \<and> (\<forall>r \<in> set repos. snd (process_repo_min w r) \<noteq> Crashed)
       \<and> os_WriteFile_ok os (outFile fl') \<longrightarrow>
      exit_status (main_minimal fl' os w) = 0
      \<and> written (main_minimal fl' os w) = snd (run_tasks_min w repos [])
      \<and> written (main_minimal fl' os w) \<noteq> None)"
proof -
  have A: "snd (run_tasks w (xs @ r # ys) stats) = snd (run_tasks w (xs @ ys) stats)"
    if "snd (process_repo w r) = Skipped why"
    using that by (rule run_tasks_skip)
  have B: "snd (run_tasks_min w (xs @ r # ys) allDeps) = snd (run_tasks_min w (xs @ ys) allDeps)"
    if "snd (process_repo_min w r) = Skipped why"
    using that by (rule run_tasks_min_skip)
  have C: "snd (process_repo w r) = Skipped InvalidRepoFormat
      \<and> snd (process_repo_min w r) = Skipped InvalidRepoFormat"
    if "length (strings_Split r (CHR ''/'')) \<noteq> 2"
    using that by (simp add: process_repo_def process_repo_min_def splitRepo_def)
  have D: "(snd (getLatestBranch w owner repo) = Err e \<longrightarrow>
         snd (process_repo w r) = Skipped (BranchError e))
      \<and> (snd (getLatestBranch w owner repo) = Ok branch
          \<and> snd (getPubspec w owner repo branch) = Err e \<longrightarrow>
         snd (process_repo w r) = Skipped (FetchError e))
      \<and> (NewRequest_ok w (pubspec_url owner repo branch)
          \<and> client_Do w (pubspec_url owner repo branch) = Response 404 body \<longrightarrow>
         snd (getPubspec w owner repo branch) = Err (StatusError 404))
      \<and> (GetContents w owner repo = GhError \<longrightarrow>
         snd (process_repo_min w r) = Skipped (FetchError ApiError))
      \<and> (GetContents w owner repo = GhFile None \<longrightarrow>
         snd (process_repo_min w r) = Skipped (ReadError ContentError))
      \<and> (GetContents w owner repo = GhFile (Some data)
          \<and> extractDependencies w data = Inl e \<longrightarrow>
         snd (process_repo_min w r) = Skipped (ParseError e))"
    if sp: "strings_Split r (CHR ''/'') = [owner, repo]"
  proof -
    have d1: "snd (process_repo w r) = Skipped (BranchError e)"
      if "snd (getLatestBranch w owner repo) = Err e"
      using that sp
      by (cases "getLatestBranch w owner repo") (simp add: process_repo_def)
    have d2: "snd (process_repo w r) = Skipped (FetchError e)"
      if "snd (getLatestBranch w owner repo) = Ok branch"
        "snd (getPubspec w owner repo branch) = Err e"
      using that sp
      by (cases "getLatestBranch w owner repo"; cases "getPubspec w owner repo branch")
        (simp add: process_repo_def)
    have d3: "snd (getPubspec w owner repo branch) = Err (StatusError 404)"
      if "NewRequest_ok w (pubspec_url owner repo branch)"
        "client_Do w (pubspec_url owner repo branch) = Response 404 body"
      using that by (simp add: getPubspec_def)
    from sp have s: "splitRepo r = (owner, repo, True)" by (simp add: splitRepo_def)
    have d4: "snd (process_repo_min w r) = Skipped (FetchError ApiError)"
      if "GetContents w owner repo = GhError"
      using that s by (simp add: process_repo_min_def)
    have d5: "snd (process_repo_min w r) = Skipped (ReadError ContentError)"
      if "GetContents w owner repo = GhFile None"
      using that s by (simp add: process_repo_min_def)
    have d6: "snd (process_repo_min w r) = Skipped (ParseError e)"
      if "GetContents w owner repo = GhFile (Some data)" "extractDependencies w data = Inl e"
      using that s by (simp add: process_repo_min_def)
    from d1 d2 d3 d4 d5 d6 show ?thesis by blast
  qed
  have E: "exit_status (main_extended fl os w) = 0"
    if "\<forall>file. os_ReadFile os (reposPath fl) = Some file \<longrightarrow>
          (\<forall>r \<in> set (strings_Fields (strings_TrimSpace file)).
              snd (process_repo w r) \<noteq> Crashed)"
    using that exit_status_main_extended [of fl os w] by blast
  have G: "exit_status (main_extended fl os w) = 0
      \<and> (\<exists>st. snd (run_tasks w lines \<lparr>deps = [], devDeps = [], overrides = []\<rparr>) = Some st
            \<and> written (main_extended fl os w) = Some (buildReport st (minUsage fl)))"
    if "\<not> helpFlag fl \<and> envPath fl \<noteq> [] \<and> reposPath fl \<noteq> [] \<and> outPath fl \<noteq> []
       \<and> (environ_token os = Some tok
           \<or> environ_token os = None \<and> dotenv_token os (envPath fl) = Some tok)
       \<and> tok \<noteq> []
       \<and> os_ReadFile os (reposPath fl) = Some content
       \<and> strings_Fields (strings_TrimSpace content) = lines \<and> lines \<noteq> []
       \<and> (\<forall>r \<in> set lines. snd (process_repo w r) \<noteq> Crashed)
       \<and> os_WriteFile_ok os (outPath fl)"
    using that by (intro main_extended_success [where tok = tok and content = content]) blast+
  have F: "exit_status (main_minimal fl' os w) = 0
      \<and> written (main_minimal fl' os w) = snd (run_tasks_min w repos [])
      \<and> written (main_minimal fl' os w) \<noteq> None"
    if "\<not> showHelp fl' \<and> reposFile fl' \<noteq> [] \<and> outFile fl' \<noteq> [] \<and> envFile fl' \<noteq> []
       \<and> readEnvToken os (envFile fl') = Inr token \<and> token \<noteq> []
       \<and> readRepos os (reposFile fl') = Inr repos
       \<and> 0 < sint (limit fl')
       \<and> (\<forall>r \<in> set repos. snd (process_repo_min w r) \<noteq> Crashed)
       \<and> os_WriteFile_ok os (outFile fl')"
    using that by (intro main_minimal_success) blast+
  have A': "snd (process_repo w r) = Skipped why \<longrightarrow>
      snd (run_tasks w (xs @ r # ys) stats) = snd (run_tasks w (xs @ ys) stats)"
    using A by blast
  have B': "snd (process_repo_min w r) = Skipped why \<longrightarrow>
      snd (run_tasks_min w (xs @ r # ys) allDeps) = snd (run_tasks_min w (xs @ ys) allDeps)"
    using B by blast
  from C have C': "length (strings_Split r (CHR ''/'')) \<noteq> 2 \<longrightarrow>
      snd (process_repo w r) = Skipped InvalidRepoFormat
      \<and> snd (process_repo_min w r) = Skipped InvalidRepoFormat"
    by (rule impI)
  show ?thesis
    apply (rule conjI [OF A'])
    apply (rule conjI [OF B'])
    apply (rule conjI [OF C'])
    apply (rule conjI)
     apply (rule impI)
     apply (erule D)
    apply (rule conjI)
     apply (rule impI)
     apply (erule E)
    apply (rule conjI)
     apply (rule impI)
     apply (erule G)
    apply (rule impI)
    apply (erule F)
    done
qed


text \<open>
  The example of the claim: of the three repositories the second is answered 404.
\<close>

theorem failed_repository_is_skipped_witness:
  "snd (process_repo example_world ''c/d'') = Skipped (FetchError (StatusError 404))
   \<and> snd (run_tasks example_world ([''a/b''] @ ''c/d'' # [''e/f''])
             \<lparr>deps = [], devDeps = [], overrides = []\<rparr>) =
       snd (run_tasks example_world ([''a/b''] @ [''e/f''])
             \<lparr>deps = [], devDeps = [], overrides = []\<rparr>)
   \<and> snd (run_tasks example_world ([''a/b''] @ [''e/f''])
             \<lparr>deps = [], devDeps = [], overrides = []\<rparr>) =
       Some \<lparr>deps = [(''http'', 1), (''provider'', 2), (''dio'', 1)],
             devDeps = [(''http'', 1)], overrides = []\<rparr>
   \<and> snd (process_repo_min example_world ''c/d'') = Skipped (FetchError ApiError)
   \<and> snd (run_tasks_min example_world ([''a/b''] @ ''c/d'' # [''e/f'']) []) =
       snd (run_tasks_min example_world ([''a/b''] @ [''e/f'']) [])
   \<and> strings_Split ''c/d'' (CHR ''/'') = [''c'', ''d'']
   \<and> snd (getLatestBranch example_world ''c'' ''d'') = Ok ''master''
   \<and> client_Do example_world (pubspec_url ''c'' ''d'' ''master'') = Response 404 ''Not Found''
   \<and> snd (getPubspec example_world ''c'' ''d'' ''master'') = Err (StatusError 404)
   \<and> length (strings_Split ''a/b/c'' (CHR ''/'')) \<noteq> 2
   \<and> snd (process_repo example_world ''a/b/c'') = Skipped InvalidRepoFormat
   \<and> exit_status (main_extended example_flags example_os example_world) = 0
   \<and> written (main_extended example_flags example_os example_world) =
       Some (buildReport \<lparr>deps = [(''http'', 1), (''provider'', 2), (''dio'', 1)],
                          devDeps = [(''http'', 1)], overrides = []\<rparr> 1)
   \<and> exit_status (main_minimal example_flags_min example_os example_world) = 0
   \<and> written (main_minimal example_flags_min example_os example_world) =
       Some [(''http'', 2), (''provider'', 2), (''dio'', 1)]"
proof -
  let ?e = "\<lparr>deps = [] :: go_int go_map, devDeps = [] :: go_int go_map,
             overrides = [] :: go_int go_map\<rparr>"
  note i1 = failed_repository_is_skipped
    [where w = example_world and r = "''c/d''" and why = "FetchError (StatusError 404)"
       and xs = "[''a/b'']" and ys = "[''e/f'']" and stats = ?e and owner = "''c''"
       and repo = "''d''" and branch = "''master''" and body = "''Not Found''"
       and e = "StatusError 404"
       and fl = example_flags and os = example_os and fl' = example_flags_min
       and token = "''ghp_example''" and repos = "[''a/b'', ''c/d'', ''e/f'']"
       and tok = "''ghp_example''"
       and content = "''a/b'' @ [CHR 0x0A] @ ''c/d'' @ [CHR 0x0A] @ ''e/f'' @ [CHR 0x0A]"
       and lines = "[''a/b'', ''c/d'', ''e/f'']"]
  note i2 = failed_repository_is_skipped
    [where w = example_world and r = "''c/d''" and why = "FetchError ApiError"
       and xs = "[''a/b'']" and ys = "[''e/f'']" and allDeps = "[]"]
  note i3 = failed_repository_is_skipped
    [where w = example_world and r = "''a/b/c''"]
  have p1: "snd (process_repo example_world ''c/d'') = Skipped (FetchError (StatusError 404))"
    by code_simp
  have p2: "snd (process_repo_min example_world ''c/d'') = Skipped (FetchError ApiError)"
    by code_simp
  have sp: "strings_Split ''c/d'' (CHR ''/'') = [''c'', ''d'']" by code_simp
  have gl: "snd (getLatestBranch example_world ''c'' ''d'') = Ok ''master''" by code_simp
  have ok: "NewRequest_ok example_world (pubspec_url ''c'' ''d'' ''master'')" by code_simp
  have cd: "client_Do example_world (pubspec_url ''c'' ''d'' ''master'') = Response 404 ''Not Found''"
    by code_simp
  have l3: "length (strings_Split ''a/b/c'' (CHR ''/'')) \<noteq> 2" by code_simp
  have r0: "snd (run_tasks example_world ([''a/b''] @ [''e/f'']) ?e) =
       Some \<lparr>deps = [(''http'', 1), (''provider'', 2), (''dio'', 1)],
             devDeps = [(''http'', 1)], overrides = []\<rparr>"
    by code_simp
  have rf: "os_ReadFile example_os (reposPath example_flags) =
      Some (''a/b'' @ [CHR 0x0A] @ ''c/d'' @ [CHR 0x0A] @ ''e/f'' @ [CHR 0x0A])"
    by (simp add: example_os_def example_flags_def)
  have nc: "\<not> (\<exists>r \<in> set (strings_Fields (strings_TrimSpace
        (''a/b'' @ [CHR 0x0A] @ ''c/d'' @ [CHR 0x0A] @ ''e/f'' @ [CHR 0x0A]))).
      snd (process_repo example_world r) = Crashed)"
    by code_simp
  from rf nc have no_crash': "\<forall>file. os_ReadFile example_os (reposPath example_flags)
        = Some file \<longrightarrow>
      (\<forall>r \<in> set (strings_Fields (strings_TrimSpace file)).
            snd (process_repo example_world r) \<noteq> Crashed)"
    by simp
  have x1: "\<not> helpFlag example_flags \<and> envPath example_flags \<noteq> []
       \<and> reposPath example_flags \<noteq> [] \<and> outPath example_flags \<noteq> []
       \<and> (environ_token example_os = Some ''ghp_example''
           \<or> environ_token example_os = None
              \<and> dotenv_token example_os (envPath example_flags) = Some ''ghp_example'')
       \<and> ''ghp_example'' \<noteq> []"
    by (simp add: example_os_def example_flags_def)
  have x2: "strings_Fields (strings_TrimSpace
        (''a/b'' @ [CHR 0x0A] @ ''c/d'' @ [CHR 0x0A] @ ''e/f'' @ [CHR 0x0A]))
      = [''a/b'', ''c/d'', ''e/f'']"
    by code_simp
  have x3: "[''a/b'', ''c/d'', ''e/f''] \<noteq> ([] :: string list)
      \<and> (\<forall>r \<in> set [''a/b'', ''c/d'', ''e/f''].
            snd (process_repo example_world r) \<noteq> Crashed)"
    by code_simp
  have x4: "os_WriteFile_ok example_os (outPath example_flags)"
    by (simp add: example_os_def example_flags_def)
  from x1 rf x2 x3 x4
  have x: "\<not> helpFlag example_flags \<and> envPath example_flags \<noteq> []
       \<and> reposPath example_flags \<noteq> [] \<and> outPath example_flags \<noteq> []
       \<and> (environ_token example_os = Some ''ghp_example''
           \<or> environ_token example_os = None
              \<and> dotenv_token example_os (envPath example_flags) = Some ''ghp_example'')
       \<and> ''ghp_example'' \<noteq> []
       \<and> os_ReadFile example_os (reposPath example_flags) =
           Some (''a/b'' @ [CHR 0x0A] @ ''c/d'' @ [CHR 0x0A] @ ''e/f'' @ [CHR 0x0A])
       \<and> strings_Fields (strings_TrimSpace
            (''a/b'' @ [CHR 0x0A] @ ''c/d'' @ [CHR 0x0A] @ ''e/f'' @ [CHR 0x0A]))
          = [''a/b'', ''c/d'', ''e/f'']
       \<and> [''a/b'', ''c/d'', ''e/f''] \<noteq> ([] :: string list)
       \<and> (\<forall>r \<in> set [''a/b'', ''c/d'', ''e/f''].
            snd (process_repo example_world r) \<noteq> Crashed)
       \<and> os_WriteFile_ok example_os (outPath example_flags)"
    by blast
  have rx: "snd (run_tasks example_world [''a/b'', ''c/d'', ''e/f''] ?e) =
       Some \<lparr>deps = [(''http'', 1), (''provider'', 2), (''dio'', 1)],
             devDeps = [(''http'', 1)], overrides = []\<rparr>"
    by code_simp
  have m: "\<not> showHelp example_flags_min \<and> reposFile example_flags_min \<noteq> []
       \<and> outFile example_flags_min \<noteq> [] \<and> envFile example_flags_min \<noteq> []
       \<and> readEnvToken example_os (envFile example_flags_min) = Inr ''ghp_example''
       \<and> ''ghp_example'' \<noteq> []
       \<and> readRepos example_os (reposFile example_flags_min) = Inr [''a/b'', ''c/d'', ''e/f'']
       \<and> 0 < sint (limit example_flags_min)
       \<and> (\<forall>r \<in> set [''a/b'', ''c/d'', ''e/f''].
             snd (process_repo_min example_world r) \<noteq> Crashed)
       \<and> os_WriteFile_ok example_os (outFile example_flags_min)"
    by code_simp
  have rm: "snd (run_tasks_min example_world [''a/b'', ''c/d'', ''e/f''] []) =
      Some [(''http'', 2), (''provider'', 2), (''dio'', 1)]"
    by code_simp
  note i1A = i1 [THEN conjunct1]
  note i2B = i2 [THEN conjunct2, THEN conjunct1]
  note i3C = i3 [THEN conjunct2, THEN conjunct2, THEN conjunct1]
  note i1D = i1 [THEN conjunct2, THEN conjunct2, THEN conjunct2, THEN conjunct1]
  note i1E = i1 [THEN conjunct2, THEN conjunct2, THEN conjunct2, THEN conjunct2, THEN conjunct1]
  note i1G = i1 [THEN conjunct2, THEN conjunct2, THEN conjunct2, THEN conjunct2, THEN conjunct2,
    THEN conjunct1]
  note i1F = i1 [THEN conjunct2, THEN conjunct2, THEN conjunct2, THEN conjunct2, THEN conjunct2,
    THEN conjunct2]
  from i1A p1 have a: "snd (run_tasks example_world ([''a/b''] @ ''c/d'' # [''e/f'']) ?e) =
       snd (run_tasks example_world ([''a/b''] @ [''e/f'']) ?e)"
    by blast
  from i2B p2 have b: "snd (run_tasks_min example_world ([''a/b''] @ ''c/d'' # [''e/f'']) []) =
       snd (run_tasks_min example_world ([''a/b''] @ [''e/f'']) [])"
    by blast
  from i1D sp ok cd have c: "snd (getPubspec example_world ''c'' ''d'' ''master'')
      = Err (StatusError 404)"
    by blast
  from i3C l3 have d: "snd (process_repo example_world ''a/b/c'') = Skipped InvalidRepoFormat"
    by blast
  from i1E no_crash' have e: "exit_status (main_extended example_flags example_os example_world) = 0"
    by (rule mp)
  from i1G x have "\<exists>st. snd (run_tasks example_world [''a/b'', ''c/d'', ''e/f''] ?e) = Some st
      \<and> written (main_extended example_flags example_os example_world)
          = Some (buildReport st (minUsage example_flags))"
    by blast
  with rx have h: "written (main_extended example_flags example_os example_world) =
       Some (buildReport \<lparr>deps = [(''http'', 1), (''provider'', 2), (''dio'', 1)],
                          devDeps = [(''http'', 1)], overrides = []\<rparr> 1)"
    by (auto simp: example_flags_def)
  from i1F m have f: "exit_status (main_minimal example_flags_min example_os example_world) = 0"
    "written (main_minimal example_flags_min example_os example_world) =
       snd (run_tasks_min example_world [''a/b'', ''c/d'', ''e/f''] [])"
    by blast+
  from f(2) rm have g: "written (main_minimal example_flags_min example_os example_world) =
       Some [(''http'', 2), (''provider'', 2), (''dio'', 1)]"
    by simp
  from p1 a r0 p2 b sp gl cd c l3 d e h f(1) g show ?thesis by (intro conjI)
qed

section \<open>Incomplete configuration\<close>

text \<open>
  Claim C7, as stated, fails twice. Without any flag the extended variant prints its
  message and returns from \<^verbatim>\<open>main\<close>: exit status 0. And \<^verbatim>\<open>--help\<close> alone, with every
  required flag missing, ends either variant with status 0.
\<close>

theorem missing_flags_exit_status_zero:
  "envPath default_flags = [] \<and> reposPath default_flags = [] \<and> outPath default_flags = []
   \<and> helpFlag default_flags = False
   \<and> main_extended default_flags example_os example_world =
       \<lparr>exit_status = 0, printed = MissingArguments, requests = [], written = None\<rparr>
   \<and> reposFile (default_flags_min\<lparr>showHelp := True\<rparr>) = []
   \<and> main_minimal (default_flags_min\<lparr>showHelp := True\<rparr>) example_os example_world =
       \<lparr>exit_status = 0, printed = Usage, requests = [], written = None\<rparr>"
  by (simp add: default_flags_def default_flags_min_def main_extended_def main_minimal_def)

text \<open>
  Claim C7, amended. With \<^verbatim>\<open>--help\<close> either variant prints the usage and exits 0, whatever
  is missing. Without it, an invocation in which a required flag is missing, or in which
  no token is found, prints its error, sends no request and does not panic. The minimal
  variant then exits with status 1; it finds no token when the env file cannot be opened
  or holds no non-empty \<^verbatim>\<open>GITHUB_TOKEN=\<close> line. The extended variant returns from \<^verbatim>\<open>main\<close>,
  exit status 0; it finds no token when \<^verbatim>\<open>GITHUB_TOKEN\<close> is empty in the process
  environment, or unset there and not given a non-empty value by the env file.
\<close>

theorem missing_configuration_stops_before_any_request:
  "(helpFlag fl \<longrightarrow>
      main_extended fl os w =
        \<lparr>exit_status = 0, printed = Usage, requests = [], written = None\<rparr>)
   \<and> (\<not> helpFlag fl \<and> (envPath fl = [] \<or> reposPath fl = [] \<or> outPath fl = []) \<longrightarrow>
      main_extended fl os w =
        \<lparr>exit_status = 0, printed = MissingArguments, requests = [], written = None\<rparr>)
   \<and> (\<not> helpFlag fl \<and> envPath fl \<noteq> [] \<and> reposPath fl \<noteq> [] \<and> outPath fl \<noteq> []
       \<and> (environ_token os = Some []
           \<or> environ_token os = None
              \<and> (dotenv_token os (envPath fl) = None
                  \<or> dotenv_token os (envPath fl) = Some [])) \<longrightarrow>
      main_extended fl os w =
        \<lparr>exit_status = 0, printed = TokenNotFound, requests = [], written = None\<rparr>)
   \<and> (showHelp fl' \<longrightarrow>
      main_minimal fl' os w =
        \<lparr>exit_status = 0, printed = Usage, requests = [], written = None\<rparr>)
   \<and> (\<not> showHelp fl' \<and> (reposFile fl' = [] \<or> outFile fl' = [] \<or> envFile fl' = []) \<longrightarrow>
      main_minimal fl' os w =
        \<lparr>exit_status = 1, printed = MissingArguments, requests = [], written = None\<rparr>)
   \<and> (\<not> showHelp fl' \<and> reposFile fl' \<noteq> [] \<and> outFile fl' \<noteq> [] \<and> envFile fl' \<noteq> []
       \<and> scanner_lines os (envFile fl') = None \<longrightarrow>
      readEnvToken os (envFile fl') = Inl OpenError
      \<and> main_minimal fl' os w =
        \<lparr>exit_status = 1, printed = ReadTokenFailed, requests = [], written = None\<rparr>)
   \<and> (\<not> showHelp fl' \<and> reposFile fl' \<noteq> [] \<and> outFile fl' \<noteq> [] \<and> envFile fl' \<noteq> []
       \<and> readEnvToken os (envFile fl') = Inr [] \<longrightarrow>
      main_minimal fl' os w =
        \<lparr>exit_status = 1, printed = TokenNotFound, requests = [], written = None\<rparr>)"
proof -
  have A: "main_extended fl os w =
        \<lparr>exit_status = 0, printed = Usage, requests = [], written = None\<rparr>"
    if "helpFlag fl"
    using that by (simp add: main_extended_def)
  have B: "main_extended fl os w =
        \<lparr>exit_status = 0, printed = MissingArguments, requests = [], written = None\<rparr>"
    if "\<not> helpFlag fl \<and> (envPath fl = [] \<or> reposPath fl = [] \<or> outPath fl = [])"
    using that by (simp add: main_extended_def)
  have C: "main_extended fl os w =
        \<lparr>exit_status = 0, printed = TokenNotFound, requests = [], written = None\<rparr>"
    if "\<not> helpFlag fl \<and> envPath fl \<noteq> [] \<and> reposPath fl \<noteq> [] \<and> outPath fl \<noteq> []
       \<and> (environ_token os = Some []
           \<or> environ_token os = None
              \<and> (dotenv_token os (envPath fl) = None
                  \<or> dotenv_token os (envPath fl) = Some []))"
  proof -
    from that have "(case environ_token os of
                 Some t \<Rightarrow> t
               | None \<Rightarrow> (case dotenv_token os (envPath fl) of Some t \<Rightarrow> t | None \<Rightarrow> [])) = []"
      by auto
    with that show ?thesis by (simp add: main_extended_def)
  qed
  have D: "main_minimal fl' os w =
        \<lparr>exit_status = 0, printed = Usage, requests = [], written = None\<rparr>"
    if "showHelp fl'"
    using that by (simp add: main_minimal_def)
  have E: "main_minimal fl' os w =
        \<lparr>exit_status = 1, printed = MissingArguments, requests = [], written = None\<rparr>"
    if "\<not> showHelp fl' \<and> (reposFile fl' = [] \<or> outFile fl' = [] \<or> envFile fl' = [])"
    using that by (simp add: main_minimal_def)
  have F: "readEnvToken os (envFile fl') = Inl OpenError
      \<and> main_minimal fl' os w =
        \<lparr>exit_status = 1, printed = ReadTokenFailed, requests = [], written = None\<rparr>"
    if "\<not> showHelp fl' \<and> reposFile fl' \<noteq> [] \<and> outFile fl' \<noteq> [] \<and> envFile fl' \<noteq> []
       \<and> scanner_lines os (envFile fl') = None"
    using that by (simp add: main_minimal_def readEnvToken_def)
  have G: "main_minimal fl' os w =
        \<lparr>exit_status = 1, printed = TokenNotFound, requests = [], written = None\<rparr>"
    if "\<not> showHelp fl' \<and> reposFile fl' \<noteq> [] \<and> outFile fl' \<noteq> [] \<and> envFile fl' \<noteq> []
       \<and> readEnvToken os (envFile fl') = Inr []"
    using that by (simp add: main_minimal_def)
  from A B C D E F G show ?thesis by blast
qed

text \<open>
  The example invocation with one thing taken away at a time.
\<close>

theorem missing_configuration_stops_before_any_request_witness:
  "main_extended (example_flags\<lparr>helpFlag := True\<rparr>) example_os example_world =
     \<lparr>exit_status = 0, printed = Usage, requests = [], written = None\<rparr>
   \<and> main_extended (example_flags\<lparr>outPath := []\<rparr>) example_os example_world =
     \<lparr>exit_status = 0, printed = MissingArguments, requests = [], written = None\<rparr>
   \<and> main_extended example_flags (example_os\<lparr>dotenv_token := \<lambda>path. None\<rparr>) example_world =
     \<lparr>exit_status = 0, printed = TokenNotFound, requests = [], written = None\<rparr>
   \<and> main_minimal (example_flags_min\<lparr>showHelp := True\<rparr>) example_os example_world =
     \<lparr>exit_status = 0, printed = Usage, requests = [], written = None\<rparr>
   \<and> main_minimal (example_flags_min\<lparr>outFile := []\<rparr>) example_os example_world =
     \<lparr>exit_status = 1, printed = MissingArguments, requests = [], written = None\<rparr>
   \<and> main_minimal (example_flags_min\<lparr>envFile := ''missing.env''\<rparr>) example_os example_world =
     \<lparr>exit_status = 1, printed = ReadTokenFailed, requests = [], written = None\<rparr>
   \<and> readEnvToken (example_os\<lparr>scanner_lines := \<lambda>path. Some ([''# no token here''], False)\<rparr>)
        ''.env'' = Inr []
   \<and> main_minimal example_flags_min
        (example_os\<lparr>scanner_lines := \<lambda>path. Some ([''# no token here''], False)\<rparr>)
        example_world =
     \<lparr>exit_status = 1, printed = TokenNotFound, requests = [], written = None\<rparr>"
proof -
  let ?os3 = "example_os\<lparr>dotenv_token := \<lambda>path. None\<rparr>"
  let ?os7 = "example_os\<lparr>scanner_lines := \<lambda>path. Some ([''# no token here''], False)\<rparr>"
  have h1: "helpFlag (example_flags\<lparr>helpFlag := True\<rparr>)" by simp
  have h2: "\<not> helpFlag (example_flags\<lparr>outPath := []\<rparr>)
      \<and> (envPath (example_flags\<lparr>outPath := []\<rparr>) = []
          \<or> reposPath (example_flags\<lparr>outPath := []\<rparr>) = []
          \<or> outPath (example_flags\<lparr>outPath := []\<rparr>) = [])"
    by (simp add: example_flags_def)
  have h3: "\<not> helpFlag example_flags \<and> envPath example_flags \<noteq> []
       \<and> reposPath example_flags \<noteq> [] \<and> outPath example_flags \<noteq> []
       \<and> (environ_token ?os3 = Some []
           \<or> environ_token ?os3 = None
              \<and> (dotenv_token ?os3 (envPath example_flags) = None
                  \<or> dotenv_token ?os3 (envPath example_flags) = Some []))"
    by (simp add: example_flags_def example_os_def)
  have h4: "showHelp (example_flags_min\<lparr>showHelp := True\<rparr>)" by simp
  have h5: "\<not> showHelp (example_flags_min\<lparr>outFile := []\<rparr>)
      \<and> (reposFile (example_flags_min\<lparr>outFile := []\<rparr>) = []
          \<or> outFile (example_flags_min\<lparr>outFile := []\<rparr>) = []
          \<or> envFile (example_flags_min\<lparr>outFile := []\<rparr>) = [])"
    by (simp add: example_flags_min_def)
  have h6: "\<not> showHelp (example_flags_min\<lparr>envFile := ''missing.env''\<rparr>)
       \<and> reposFile (example_flags_min\<lparr>envFile := ''missing.env''\<rparr>) \<noteq> []
       \<and> outFile (example_flags_min\<lparr>envFile := ''missing.env''\<rparr>) \<noteq> []
       \<and> envFile (example_flags_min\<lparr>envFile := ''missing.env''\<rparr>) \<noteq> []
       \<and> scanner_lines example_os (envFile (example_flags_min\<lparr>envFile := ''missing.env''\<rparr>))
           = None"
    by (simp add: example_flags_min_def example_os_def)
  have t7: "readEnvToken ?os7 ''.env'' = Inr []" by code_simp
  have h7: "\<not> showHelp example_flags_min \<and> reposFile example_flags_min \<noteq> []
       \<and> outFile example_flags_min \<noteq> [] \<and> envFile example_flags_min \<noteq> []
       \<and> readEnvToken ?os7 (envFile example_flags_min) = Inr []"
    using t7 by (simp add: example_flags_min_def)
  from missing_configuration_stops_before_any_request
         [where fl = "example_flags\<lparr>helpFlag := True\<rparr>" and os = example_os
            and w = example_world and fl' = "example_flags_min\<lparr>showHelp := True\<rparr>"] h1 h4
  have a: "main_extended (example_flags\<lparr>helpFlag := True\<rparr>) example_os example_world =
        \<lparr>exit_status = 0, printed = Usage, requests = [], written = None\<rparr>"
    "main_minimal (example_flags_min\<lparr>showHelp := True\<rparr>) example_os example_world =
        \<lparr>exit_status = 0, printed = Usage, requests = [], written = None\<rparr>"
    by blast+
  from missing_configuration_stops_before_any_request
         [where fl = "example_flags\<lparr>outPath := []\<rparr>" and os = example_os
            and w = example_world and fl' = "example_flags_min\<lparr>outFile := []\<rparr>"] h2 h5
  have b: "main_extended (example_flags\<lparr>outPath := []\<rparr>) example_os example_world =
        \<lparr>exit_status = 0, printed = MissingArguments, requests = [], written = None\<rparr>"
    "main_minimal (example_flags_min\<lparr>outFile := []\<rparr>) example_os example_world =
        \<lparr>exit_status = 1, printed = MissingArguments, requests = [], written = None\<rparr>"
    by blast+
  from missing_configuration_stops_before_any_request
         [where fl = example_flags and os = ?os3 and w = example_world] h3
  have c: "main_extended example_flags ?os3 example_world =
        \<lparr>exit_status = 0, printed = TokenNotFound, requests = [], written = None\<rparr>"
    by blast
  from missing_configuration_stops_before_any_request
         [where os = example_os and w = example_world
            and fl' = "example_flags_min\<lparr>envFile := ''missing.env''\<rparr>"] h6
  have d: "main_minimal (example_flags_min\<lparr>envFile := ''missing.env''\<rparr>) example_os
        example_world =
        \<lparr>exit_status = 1, printed = ReadTokenFailed, requests = [], written = None\<rparr>"
    by blast
  from missing_configuration_stops_before_any_request
         [where os = ?os7 and w = example_world and fl' = example_flags_min] h7
  have e: "main_minimal example_flags_min ?os7 example_world =
        \<lparr>exit_status = 1, printed = TokenNotFound, requests = [], written = None\<rparr>"
    by blast
  from a b c d t7 e show ?thesis by blast
qed

end
